theory Spec2Isabelle
  imports Main "HOL-Library.Word"
begin

section \<open>Data model of the client (client/client.go)\<close>

type_synonym bytes = "8 word list"

text \<open>\<open>kin.PublicKey\<close> and \<open>kin.PrivateKey\<close> are byte slices.\<close>

type_synonym PublicKey = bytes
type_synonym PrivateKey = bytes

text \<open>The gRPC status codes (\<open>google.golang.org/grpc/codes\<close>).\<close>

datatype code =
    OK | Canceled | Unknown | InvalidArgument | DeadlineExceeded | NotFound
  | AlreadyExists | PermissionDenied | ResourceExhausted | FailedPrecondition
  | Aborted | OutOfRange | Unimplemented | Internal | Unavailable | DataLoss
  | Unauthenticated

text \<open>
  Go's \<open>error\<close> values. The sentinels are the ones client.go names; \<open>StatusError\<close> is an
  error made by \<open>status.Error(code, msg)\<close>; \<open>ErrorNew\<close> is \<open>errors.New(msg)\<close>;
  \<open>Errorf\<close> is \<open>errors.Errorf(format, args)\<close> with its integer arguments;
  \<open>Wrap\<close> is \<open>errors.Wrap(err, msg)\<close>; \<open>Panic\<close> is a run-time panic (an index out
  of range), which ends the call; \<open>OtherError\<close> stands for any further error value a
  collaborator may return. A nil error is \<open>None\<close> of \<open>error option\<close>.
\<close>

datatype error =
    ErrAccountDoesNotExist
  | ErrBadNonce
  | ErrNoSubsidizer
  | ErrTransactionRejected
  | errNoTokenAccounts
  | StatusError code string
  | ErrorNew string
  | Errorf string "int list"
  | Wrap error string
  | Panic string
  | OtherError string

text \<open>
  \<open>status.Code(err)\<close> for a non-nil error: the code of a status error, \<open>codes.Unknown\<close>
  for every error that is not one.
\<close>

fun status_Code :: "error \<Rightarrow> code" where
  "status_Code (StatusError c m) = c"
| "status_Code e = Unknown"

datatype Commitment = RECENT | SINGLE | ROOT | MAX

datatype AccountResolution = AccountResolutionExact | AccountResolutionPreferred

record LineItem =
  li_Title :: string
  li_Description :: string
  li_Amount :: "64 word"
  li_Sku :: bytes

type_synonym Invoice = "LineItem list"

text \<open>
  \<open>commonpb.InvoiceList\<close>: a slice of \<open>*Invoice\<close>, whose elements may be nil.
\<close>

type_synonym InvoiceList = "Invoice option list"

record Payment =
  p_Sender :: PrivateKey
  p_Destination :: PublicKey
  p_Type :: "16 word"
  p_Quarks :: "64 word"
  p_Invoice :: "Invoice option"
  p_Memo :: string
  p_Channel :: "PrivateKey option"
  p_DedupeID :: bytes

record Earn =
  e_Destination :: PublicKey
  e_Quarks :: "64 word"
  e_Invoice :: "Invoice option"

text \<open>
  \<open>EarnBatch.Earns\<close> is a Go slice: a reference to an array that the caller of
  \<open>SubmitEarnBatch\<close> and the callee share (the struct is copied at the call, the array
  is not). The slice is the address of its array in \<open>earnsMem\<close> of the state.
\<close>

record EarnBatch =
  b_Sender :: PrivateKey
  b_Channel :: "PrivateKey option"
  b_Memo :: string
  b_Earns :: nat
  b_DedupeID :: bytes

record InvoiceError =
  ie_OpIndex :: "32 word"
  ie_Invoice :: "Invoice option"
  ie_Reason :: nat

record TransactionErrors =
  TxError :: "error option"
  OpErrors :: "error option list"
  PaymentErrors :: "error option list"

record SubmitTransactionResult =
  ID :: bytes
  Errors :: TransactionErrors
  InvoiceErrors :: "InvoiceError list"

definition noErrors :: TransactionErrors where
  "noErrors = \<lparr>TxError = None, OpErrors = [], PaymentErrors = []\<rparr>"

text \<open>The zero value \<open>SubmitTransactionResult{}\<close>.\<close>

definition zeroResult :: SubmitTransactionResult where
  "zeroResult = \<lparr>ID = [], Errors = noErrors, InvoiceErrors = []\<rparr>"

record EarnError =
  EarnIndex :: int
  ee_Error :: "error option"

record EarnBatchResult =
  TxID :: bytes
  r_TxError :: "error option"
  EarnErrors :: "EarnError list"

definition zeroEarnBatchResult :: EarnBatchResult where
  "zeroEarnBatchResult = \<lparr>TxID = [], r_TxError = None, EarnErrors = []\<rparr>"

record solanaOpts =
  commitment :: Commitment
  accountResolution :: AccountResolution
  destResolution :: AccountResolution
  subsidizer :: "PrivateKey option"

text \<open>A \<open>SolanaOption\<close> is a function that updates the options.\<close>

type_synonym SolanaOption = "solanaOpts \<Rightarrow> solanaOpts"

definition applyOpts :: "solanaOpts \<Rightarrow> SolanaOption list \<Rightarrow> solanaOpts" where
  "applyOpts d opts = foldl (\<lambda>so f. f so) d opts"

record tokenAccountEntry =
  created :: int
  accounts :: "PublicKey list"

subsection \<open>Transactions of the two ledgers\<close>

datatype Asset = AssetTypeNative | AssetTypeCreditAlphanum4 PublicKey bytes

datatype Memo = MemoTypeNone | MemoTypeText string | MemoTypeHash bytes

record Operation =
  op_SourceAccount :: PublicKey
  op_Destination :: PublicKey
  op_Amount :: "64 word"
  op_Asset :: Asset

text \<open>
  \<open>xdr.TransactionEnvelope\<close>; a signature is kept as the key that made it.
\<close>

record Envelope =
  SourceAccount :: PublicKey
  Fee :: "32 word"
  SeqNum :: "64 word"
  Operations :: "Operation list"
  env_Memo :: Memo
  Signatures :: "PrivateKey list"

datatype Instruction =
    MemoInstruction string
  | Transfer PublicKey PublicKey PublicKey "64 word"

record Transaction =
  tx_Payer :: PublicKey
  tx_Instructions :: "Instruction list"
  tx_Blockhash :: bytes
  tx_Signatures :: "PrivateKey list"

record AccountInfo =
  Balance :: "64 word"
  SequenceNumber :: "64 word"

text \<open>
  \<open>GetServiceConfigResponse\<close>: \<open>GetSubsidizerAccount()\<close> is nil or an account whose
  \<open>GetValue()\<close> is the key.
\<close>

record ServiceConfig =
  SubsidizerAccount :: "PublicKey option"

record StellarSubmit =
  ss_Envelope :: Envelope
  ss_InvoiceList :: "InvoiceList option"

record SolanaSubmit =
  so_Transaction :: Transaction
  so_InvoiceList :: "InvoiceList option"
  so_Commitment :: Commitment
  so_DedupeID :: bytes

subsection \<open>Library functions taken as parameters\<close>

text \<open>
  Functions of imported packages that client.go calls and that are opaque here: key
  derivation and encoding, protobuf serialisation, SHA-224, the memo encoder
  \<open>kin.NewMemo\<close>, base64, the failures of signing and of XDR marshalling, and
  \<open>invoiceErrorFromProto\<close> (errors.go of this package, which is not among the sources).
\<close>

record lib =
  Public :: "PrivateKey \<Rightarrow> PublicKey"
  Base58 :: "PublicKey \<Rightarrow> string"
  Marshal :: "InvoiceList \<Rightarrow> error + bytes"
  Sum224 :: "bytes \<Rightarrow> bytes"
  NewMemo :: "8 word \<Rightarrow> 16 word \<Rightarrow> 16 word \<Rightarrow> bytes \<Rightarrow> error + bytes"
  EncodeToString :: "bytes \<Rightarrow> string"
  signEnvelopeErr :: "Envelope \<Rightarrow> PrivateKey \<Rightarrow> error option"
  marshalBinaryErr :: "Envelope \<Rightarrow> error option"
  txSignErr :: "Transaction \<Rightarrow> PrivateKey list \<Rightarrow> error option"
  invoiceErrorFromProto :: "InvoiceError \<Rightarrow> error"

subsection \<open>The client and its environment\<close>

text \<open>
  The state a call runs in: the fields of \<open>client\<close> and \<open>clientOpts\<close> that the
  submission engine reads or writes, the memory of the earn arrays, and the environment.
  The environment is scripted: the n-th call of an RPC of \<open>InternalClient\<close> gets the
  n-th response of that RPC's script and is appended to that RPC's request log, and the
  n-th reading of the wall clock gets \<open>clock n\<close> (in nanoseconds).

  Modelled from the spec: \<open>InternalClient\<close> (internal.go) is not among the sources; each
  of its calls returns either an error, with the zero value as its result, or a result
  with a nil error (section 6 of the specification).
\<close>

record state =
  kinVersion :: nat
  internal_kinVersion :: nat
  appIndex :: "16 word"
  maxRetries :: nat
  maxSequenceRetries :: nat
  whitelistKey :: PrivateKey
  kinIssuer :: PublicKey
  defaultCommitment :: Commitment
  accountCache :: "(string \<times> tokenAccountEntry) list"
  earnsMem :: "nat \<Rightarrow> Earn list"
  clock :: "nat \<Rightarrow> int"
  ticks :: nat
  accountInfoResp :: "nat \<Rightarrow> error + AccountInfo"
  accountInfoReqs :: "PublicKey list"
  stellarSubmitResp :: "nat \<Rightarrow> error + SubmitTransactionResult"
  stellarSubmits :: "StellarSubmit list"
  serviceConfigResp :: "nat \<Rightarrow> error + ServiceConfig"
  serviceConfigReqs :: nat
  blockhashResp :: "nat \<Rightarrow> error + bytes"
  blockhashReqs :: nat
  solanaSubmitResp :: "nat \<Rightarrow> error + SubmitTransactionResult"
  solanaSubmits :: "SolanaSubmit list"
  resolveResp :: "nat \<Rightarrow> error + PublicKey list"
  resolveReqs :: "PublicKey list"

definition time_Now :: "state \<Rightarrow> int \<times> state" where
  "time_Now s = (clock s (ticks s), s\<lparr>ticks := Suc (ticks s)\<rparr>)"

definition GetStellarAccountInfo :: "PublicKey \<Rightarrow> state \<Rightarrow> (error + AccountInfo) \<times> state" where
  "GetStellarAccountInfo account s =
     (accountInfoResp s (length (accountInfoReqs s)),
      s\<lparr>accountInfoReqs := accountInfoReqs s @ [account]\<rparr>)"

definition SubmitStellarTransaction ::
  "Envelope \<Rightarrow> InvoiceList option \<Rightarrow> state \<Rightarrow> (error + SubmitTransactionResult) \<times> state" where
  "SubmitStellarTransaction envelope invoiceList s =
     (stellarSubmitResp s (length (stellarSubmits s)),
      s\<lparr>stellarSubmits := stellarSubmits s @
           [\<lparr>ss_Envelope = envelope, ss_InvoiceList = invoiceList\<rparr>]\<rparr>)"

definition GetServiceConfig :: "state \<Rightarrow> (error + ServiceConfig) \<times> state" where
  "GetServiceConfig s =
     (serviceConfigResp s (serviceConfigReqs s),
      s\<lparr>serviceConfigReqs := Suc (serviceConfigReqs s)\<rparr>)"

definition GetRecentBlockhash :: "state \<Rightarrow> (error + bytes) \<times> state" where
  "GetRecentBlockhash s =
     (blockhashResp s (blockhashReqs s), s\<lparr>blockhashReqs := Suc (blockhashReqs s)\<rparr>)"

definition SubmitSolanaTransaction ::
  "Transaction \<Rightarrow> InvoiceList option \<Rightarrow> Commitment \<Rightarrow> bytes \<Rightarrow> state
     \<Rightarrow> (error + SubmitTransactionResult) \<times> state" where
  "SubmitSolanaTransaction tx il cm dedupeId s =
     (solanaSubmitResp s (length (solanaSubmits s)),
      s\<lparr>solanaSubmits := solanaSubmits s @
           [\<lparr>so_Transaction = tx, so_InvoiceList = il, so_Commitment = cm,
             so_DedupeID = dedupeId\<rparr>]\<rparr>)"

definition internal_ResolveTokenAccounts ::
  "PublicKey \<Rightarrow> state \<Rightarrow> (error + PublicKey list) \<times> state" where
  "internal_ResolveTokenAccounts account s =
     (resolveResp s (length (resolveReqs s)), s\<lparr>resolveReqs := resolveReqs s @ [account]\<rparr>)"

section \<open>The retry loop\<close>

text \<open>
  \<open>retry.Retry(action, retry.Limit(limit), retry.RetriableErrors(errs...))\<close>, the one
  combination of strategies client.go uses. The package \<open>agora-common/retry\<close> is
  imported, not part of this repository: \<open>Retry\<close> counts attempts from 1, runs the action,
  returns when the action returns nil, and otherwise asks every strategy whether to go
  on; \<open>Limit\<close> answers \<open>attempts < limit\<close> and \<open>RetriableErrors\<close> answers whether the error
  is one of \<open>errs\<close>. The action runs before any strategy is asked. The variables the
  action's closure captures are the loop state \<open>l\<close>.
\<close>

function Retry ::
  "('l \<Rightarrow> error option \<times> 'l) \<Rightarrow> nat \<Rightarrow> error list \<Rightarrow> nat \<Rightarrow> 'l
     \<Rightarrow> (nat \<times> error option) \<times> 'l" where
  "Retry action limit errs i l =
     (case action l of
        (None, l') \<Rightarrow> ((i, None), l')
      | (Some e, l') \<Rightarrow>
          if i < limit \<and> e \<in> set errs then Retry action limit errs (Suc i) l'
          else ((i, Some e), l'))"
  by pat_completeness auto
termination
  by (relation "measure (\<lambda>(action, limit, errs, i, l). limit - i)") auto

declare Retry.simps [simp del]

section \<open>The token account cache\<close>

text \<open>
  \<open>lru.Cache\<close> of \<open>hashicorp/golang-lru\<close>, created by \<open>lru.New(500)\<close>: the entries from
  the most to the least recently used. \<open>Get\<close> moves the entry it finds to the front,
  \<open>Add\<close> puts the entry at the front and drops the oldest one when the size is exceeded.
\<close>

definition cacheSize :: nat where
  "cacheSize = 500"

definition lru_Get :: "'k \<Rightarrow> ('k \<times> 'v) list \<Rightarrow> 'v option \<times> ('k \<times> 'v) list" where
  "lru_Get k c =
     (case map_of c k of
        None \<Rightarrow> (None, c)
      | Some v \<Rightarrow> (Some v, (k, v) # filter (\<lambda>p. fst p \<noteq> k) c))"

definition lru_Remove :: "'k \<Rightarrow> ('k \<times> 'v) list \<Rightarrow> ('k \<times> 'v) list" where
  "lru_Remove k c = filter (\<lambda>p. fst p \<noteq> k) c"

definition lru_Add :: "'k \<Rightarrow> 'v \<Rightarrow> ('k \<times> 'v) list \<Rightarrow> ('k \<times> 'v) list" where
  "lru_Add k v c =
     (case map_of c k of
        Some old \<Rightarrow> (k, v) # filter (\<lambda>p. fst p \<noteq> k) c
      | None \<Rightarrow>
          (let c' = (k, v) # c in if length c' > cacheSize then butlast c' else c'))"

text \<open>\<open>5*time.Minute\<close> in nanoseconds.\<close>

definition ttl :: int where
  "ttl = 5 * 60 * 1000000000"

section \<open>resolveTokenAccounts\<close>

text \<open>
  The action of the retry loop of \<open>resolveTokenAccounts\<close>; the loop state is the named
  result \<open>accounts\<close> and the state.
\<close>

definition resolveAction ::
  "PublicKey \<Rightarrow> PublicKey list \<times> state \<Rightarrow> error option \<times> (PublicKey list \<times> state)" where
  "resolveAction account l =
     (case internal_ResolveTokenAccounts account (snd l) of
        (Inl err, s') \<Rightarrow> (Some err, ([], s'))
      | (Inr accs, s') \<Rightarrow>
          if length accs = 0 then (Some errNoTokenAccounts, (accs, s'))
          else (None, (accs, s')))"

definition resolveFetch ::
  "lib \<Rightarrow> PublicKey \<Rightarrow> state \<Rightarrow> (PublicKey list \<times> error option) \<times> state" where
  "resolveFetch L account s =
     (case Retry (resolveAction account) (maxRetries s) [errNoTokenAccounts] 1 ([], s) of
        (r, (accs, s1)) \<Rightarrow>
          if length accs = 0 then (([], None), s1)
          else
            (case time_Now s1 of
               (now, s2) \<Rightarrow>
                 ((accs, None),
                  s2\<lparr>accountCache :=
                       lru_Add (Base58 L account) \<lparr>created = now, accounts = accs\<rparr>
                         (accountCache s2)\<rparr>)))"

definition resolveTokenAccounts ::
  "lib \<Rightarrow> PublicKey \<Rightarrow> state \<Rightarrow> (PublicKey list \<times> error option) \<times> state" where
  "resolveTokenAccounts L account s =
     (case lru_Get (Base58 L account) (accountCache s) of
        (Some entry, c1) \<Rightarrow>
          (case time_Now (s\<lparr>accountCache := c1\<rparr>) of
             (now, s1) \<Rightarrow>
               if now - created entry < ttl then ((accounts entry, None), s1)
               else resolveFetch L account
                      (s1\<lparr>accountCache := lru_Remove (Base58 L account) (accountCache s1)\<rparr>))
      | (None, c1) \<Rightarrow> resolveFetch L account s)"

section \<open>Signing and submitting with the nonce retry loop\<close>

text \<open>
  \<open>stellar.SignEnvelope\<close> signs the envelope it is given in place and returns it, or
  fails.
\<close>

definition SignEnvelope :: "lib \<Rightarrow> Envelope \<Rightarrow> PrivateKey \<Rightarrow> error + Envelope" where
  "SignEnvelope L envelope k =
     (case signEnvelopeErr L envelope k of
        Some e \<Rightarrow> Inl e
      | None \<Rightarrow> Inr (envelope\<lparr>Signatures := Signatures envelope @ [k]\<rparr>))"

text \<open>The loop \<open>for _, s := range signers\<close> of the action of \<open>signAndSubmitXDR\<close>.\<close>

fun signAll :: "lib \<Rightarrow> Envelope \<Rightarrow> PrivateKey list \<Rightarrow> error option \<times> Envelope" where
  "signAll L envelope [] = (None, envelope)"
| "signAll L envelope (k # ks) =
     (case SignEnvelope L envelope k of
        Inl e \<Rightarrow> (Some (Wrap e ''failed to sign transaction envelope''), envelope)
      | Inr envelope' \<Rightarrow> signAll L envelope' ks)"

text \<open>
  The action of the retry loop of \<open>signAndSubmitXDR\<close>. The loop state is the captured
  variables \<open>offset\<close>, \<open>result\<close> and \<open>envelope\<close>, and the state.
\<close>

definition xdrAction ::
  "lib \<Rightarrow> PrivateKey list \<Rightarrow> 64 word \<Rightarrow> InvoiceList option
     \<Rightarrow> 64 word \<times> SubmitTransactionResult \<times> Envelope \<times> state
     \<Rightarrow> error option \<times> (64 word \<times> SubmitTransactionResult \<times> Envelope \<times> state)" where
  "xdrAction L signers seq invoiceList l =
     (case l of (offset, result, envelope, s) \<Rightarrow>
        (case signAll L (envelope\<lparr>SeqNum := seq + offset\<rparr>) signers of
           (Some e, env1) \<Rightarrow> (Some e, (offset, result, env1, s))
         | (None, env1) \<Rightarrow>
             (case (if length (whitelistKey s) > 0 \<and> whitelistKey s \<notin> set signers
                    then SignEnvelope L env1 (whitelistKey s) else Inr env1) of
                Inl e \<Rightarrow>
                  (Some (Wrap e ''failed to sign transaction envelope''),
                   (offset, result, env1, s))
              | Inr env2 \<Rightarrow>
                  (case marshalBinaryErr L env2 of
                     Some e \<Rightarrow>
                       (Some (Wrap e ''failed to marshal transaction envelope''),
                        (offset, result, env2, s))
                   | None \<Rightarrow>
                       (case SubmitStellarTransaction env2 invoiceList s of
                          (Inl err, s') \<Rightarrow> (Some err, (offset, zeroResult, env2, s'))
                        | (Inr res, s') \<Rightarrow>
                            if TxError (Errors res) = Some ErrBadNonce
                            then (Some ErrBadNonce, (offset + 1, res, env2, s'))
                            else (None, (offset, res, env2, s')))))))"

definition signAndSubmitXDR ::
  "lib \<Rightarrow> PrivateKey list \<Rightarrow> Envelope \<Rightarrow> InvoiceList option \<Rightarrow> state
     \<Rightarrow> (SubmitTransactionResult \<times> error option) \<times> state" where
  "signAndSubmitXDR L signers envelope invoiceList s =
     (case signers of
        [] \<Rightarrow> ((zeroResult, Some (Panic ''index out of range'')), s)
      | s0 # rest \<Rightarrow>
          (case GetStellarAccountInfo (Public L s0) s of
             (Inl err, s1) \<Rightarrow> ((zeroResult, Some err), s1)
           | (Inr senderInfo, s1) \<Rightarrow>
               (case Retry (xdrAction L signers (SequenceNumber senderInfo) invoiceList)
                       (maxSequenceRetries s1) [ErrBadNonce] 1 (1, zeroResult, envelope, s1) of
                  ((n, err), (offset, result, envelope', s2)) \<Rightarrow> ((result, err), s2))))"

text \<open>
  The action of the retry loop of \<open>signAndSubmitTx\<close>; the loop state is the captured
  variables \<open>result\<close> and \<open>tx\<close>, and the state. \<open>tx.Sign\<close> fails or leaves the
  signatures of the keys in the transaction.
\<close>

definition txAction ::
  "lib \<Rightarrow> PrivateKey list \<Rightarrow> Commitment \<Rightarrow> InvoiceList option \<Rightarrow> bytes
     \<Rightarrow> SubmitTransactionResult \<times> Transaction \<times> state
     \<Rightarrow> error option \<times> (SubmitTransactionResult \<times> Transaction \<times> state)" where
  "txAction L keys cm il dedupeId l =
     (case l of (result, tx, s) \<Rightarrow>
        (case GetRecentBlockhash s of
           (Inl err, s1) \<Rightarrow> (Some err, (result, tx, s1))
         | (Inr blockhash, s1) \<Rightarrow>
             (case txSignErr L (tx\<lparr>tx_Blockhash := blockhash\<rparr>) keys of
                Some e \<Rightarrow> (Some e, (result, tx\<lparr>tx_Blockhash := blockhash\<rparr>, s1))
              | None \<Rightarrow>
                  (case SubmitSolanaTransaction
                          (tx\<lparr>tx_Blockhash := blockhash, tx_Signatures := keys\<rparr>)
                          il cm dedupeId s1 of
                     (Inl err, s2) \<Rightarrow>
                       (Some err,
                        (zeroResult, tx\<lparr>tx_Blockhash := blockhash, tx_Signatures := keys\<rparr>, s2))
                   | (Inr res, s2) \<Rightarrow>
                       (if TxError (Errors res) = Some ErrBadNonce then Some ErrBadNonce
                        else None,
                        (res, tx\<lparr>tx_Blockhash := blockhash, tx_Signatures := keys\<rparr>, s2))))))"

definition signAndSubmitTx ::
  "lib \<Rightarrow> PrivateKey list \<Rightarrow> Transaction \<Rightarrow> Commitment \<Rightarrow> InvoiceList option \<Rightarrow> bytes
     \<Rightarrow> state \<Rightarrow> (SubmitTransactionResult \<times> error option) \<times> state" where
  "signAndSubmitTx L signers tx cm il dedupeId s =
     (case Retry (txAction L signers cm il dedupeId) (maxSequenceRetries s) [ErrBadNonce] 1
             (zeroResult, tx, s) of
        ((n, err), (result, tx', s1)) \<Rightarrow> ((result, err), s1))"

section \<open>Assembling and submitting a payment\<close>

text \<open>\<open>kinAssetCode\<close>, the bytes of "KIN" and a zero.\<close>

definition kinAssetCode :: bytes where
  "kinAssetCode = [75, 73, 78, 0]"

text \<open>
  The structured memo, as \<open>SubmitPayment\<close>, \<open>submitSolanaPayment\<close> and
  \<open>submitSolanaEarnBatch\<close> each build it: \<open>fk\<close> is 28 zero bytes, or the SHA-224 of the
  serialised invoice list when there is one; the memo is \<open>kin.NewMemo(1, t, appIndex, fk)\<close>.
\<close>

definition hashMemo :: "lib \<Rightarrow> 16 word \<Rightarrow> 16 word \<Rightarrow> InvoiceList option \<Rightarrow> error + bytes" where
  "hashMemo L t idx il =
     (case (case il of
              None \<Rightarrow> Inr (replicate 28 0)
            | Some l \<Rightarrow>
                (case Marshal L l of
                   Inl e \<Rightarrow> Inl (Wrap e ''failed to serialize invoice list'')
                 | Inr invoiceBytes \<Rightarrow> Inr (Sum224 L invoiceBytes))) of
        Inl e \<Rightarrow> Inl e
      | Inr fk \<Rightarrow>
          (case NewMemo L 1 t idx fk of
             Inl e \<Rightarrow> Inl (Wrap e ''failed to create memo'')
           | Inr m \<Rightarrow> Inr m))"

text \<open>The invoice list of a payment: nil, or the list of its one invoice.\<close>

definition paymentInvoiceList :: "Payment \<Rightarrow> InvoiceList option" where
  "paymentInvoiceList payment =
     (case p_Invoice payment of None \<Rightarrow> None | Some invoice \<Rightarrow> Some [Some invoice])"

definition submitSolanaPayment ::
  "lib \<Rightarrow> Payment \<Rightarrow> ServiceConfig \<Rightarrow> Commitment \<Rightarrow> PublicKey option \<Rightarrow> PrivateKey option
     \<Rightarrow> state \<Rightarrow> (SubmitTransactionResult \<times> error option) \<times> state" where
  "submitSolanaPayment L payment config cm transferSender subsidizerKey s =
     (let subsidizerID =
            (case subsidizerKey of
               Some k \<Rightarrow> Public L k
             | None \<Rightarrow> (case SubsidizerAccount config of None \<Rightarrow> [] | Some v \<Rightarrow> v));
          signers =
            (case subsidizerKey of
               Some k \<Rightarrow> [k, p_Sender payment]
             | None \<Rightarrow> [p_Sender payment]);
          memoPart =
            (if p_Memo payment \<noteq> [] then Inr ([MemoInstruction (p_Memo payment)], None)
             else if appIndex s > 0 then
               (case hashMemo L (p_Type payment) (appIndex s) (paymentInvoiceList payment) of
                  Inl e \<Rightarrow> Inl e
                | Inr m \<Rightarrow>
                    Inr ([MemoInstruction (EncodeToString L m)], paymentInvoiceList payment))
             else Inr ([], None))
      in case memoPart of
           Inl e \<Rightarrow> ((zeroResult, Some e), s)
         | Inr (instructions, il) \<Rightarrow>
             signAndSubmitTx L signers
               \<lparr>tx_Payer = subsidizerID,
                tx_Instructions = instructions @
                  [Transfer
                     (case transferSender of
                        None \<Rightarrow> Public L (p_Sender payment) | Some t \<Rightarrow> t)
                     (p_Destination payment) (Public L (p_Sender payment)) (p_Quarks payment)],
                tx_Blockhash = [], tx_Signatures = []\<rparr>
               cm il (p_DedupeID payment) s)"

text \<open>
  One resolution step of \<open>submitPaymentWithResolution\<close> and
  \<open>submitEarnBatchWithResolution\<close>: the error of \<open>resolveTokenAccounts\<close>, or the first
  resolved account if there is one.
\<close>

definition resolveFirst ::
  "lib \<Rightarrow> PublicKey \<Rightarrow> state \<Rightarrow> (error + PublicKey option) \<times> state" where
  "resolveFirst L account s =
     (case resolveTokenAccounts L account s of
        ((tokenAccounts, Some err), s1) \<Rightarrow> (Inl err, s1)
      | ((tokenAccounts, None), s1) \<Rightarrow>
          (case tokenAccounts of [] \<Rightarrow> (Inr None, s1) | a # rest \<Rightarrow> (Inr (Some a), s1)))"

definition submitPaymentWithResolution ::
  "lib \<Rightarrow> Payment \<Rightarrow> solanaOpts \<Rightarrow> state
     \<Rightarrow> (SubmitTransactionResult \<times> error option) \<times> state" where
  "submitPaymentWithResolution L payment sOpts s =
     (case GetServiceConfig s of
        (Inl err, s1) \<Rightarrow> ((zeroResult, Some (Wrap err ''failed to get service config'')), s1)
      | (Inr config, s1) \<Rightarrow>
          if SubsidizerAccount config = None \<and> subsidizer sOpts = None
          then ((zeroResult, Some ErrNoSubsidizer), s1)
          else
            (case submitSolanaPayment L payment config (commitment sOpts) None
                    (subsidizer sOpts) s1 of
               ((result, Some err), s2) \<Rightarrow> ((result, Some err), s2)
             | ((result, None), s2) \<Rightarrow>
                 if TxError (Errors result) \<noteq> Some ErrAccountDoesNotExist
                 then ((result, None), s2)
                 else
                   (case (if accountResolution sOpts = AccountResolutionPreferred
                          then resolveFirst L (Public L (p_Sender payment)) s2
                          else (Inr None, s2)) of
                      (Inl err, s3) \<Rightarrow> ((result, Some err), s3)
                    | (Inr transferSender, s3) \<Rightarrow>
                        (case (if destResolution sOpts = AccountResolutionPreferred
                               then resolveFirst L (p_Destination payment) s3
                               else (Inr None, s3)) of
                           (Inl err, s4) \<Rightarrow> ((result, Some err), s4)
                         | (Inr dest, s4) \<Rightarrow>
                             if transferSender \<noteq> None \<or> dest \<noteq> None
                             then submitSolanaPayment L
                                    (case dest of
                                       None \<Rightarrow> payment
                                     | Some d \<Rightarrow> payment\<lparr>p_Destination := d\<rparr>)
                                    config (commitment sOpts) transferSender
                                    (subsidizer sOpts) s4
                             else ((result, None), s4)))))"

text \<open>The signers of a legacy transaction: the channel, when it differs, then the sender.\<close>

definition legacySigners :: "PrivateKey option \<Rightarrow> PrivateKey \<Rightarrow> PrivateKey list" where
  "legacySigners channel sender =
     (case channel of
        Some ch \<Rightarrow> if ch \<noteq> sender then [ch, sender] else [sender]
      | None \<Rightarrow> [sender])"

definition legacyAsset :: "state \<Rightarrow> Asset" where
  "legacyAsset s =
     (if kinVersion s = 2 then AssetTypeCreditAlphanum4 (kinIssuer s) kinAssetCode
      else AssetTypeNative)"

text \<open>The envelope \<open>SubmitPayment\<close> builds on the legacy ledger, before its memo is set.\<close>

definition paymentEnvelope :: "lib \<Rightarrow> Payment \<Rightarrow> state \<Rightarrow> Envelope" where
  "paymentEnvelope L payment s =
     \<lparr>SourceAccount = Public L (hd (legacySigners (p_Channel payment) (p_Sender payment))),
      Fee = 100, SeqNum = 0,
      Operations =
        [\<lparr>op_SourceAccount = Public L (p_Sender payment),
          op_Destination = p_Destination payment,
          op_Amount = (if kinVersion s = 2 then p_Quarks payment * 100 else p_Quarks payment),
          op_Asset = legacyAsset s\<rparr>],
      env_Memo = MemoTypeNone, Signatures = []\<rparr>"

text \<open>
  The end of \<open>SubmitPayment\<close>: what the caller gets for the result and the error of the
  submission.
\<close>

definition paymentOutcome ::
  "lib \<Rightarrow> SubmitTransactionResult \<Rightarrow> error option \<Rightarrow> bytes \<times> error option" where
  "paymentOutcome L result err =
     (if err \<noteq> None then (ID result, err)
      else if length (PaymentErrors (Errors result)) > 0 then
        (if length (PaymentErrors (Errors result)) \<noteq> 1
         then (ID result,
               Some (Errorf ''invalid number of payment errors. expected 0 or 1, got %d''
                       [int (length (OpErrors (Errors result)))]))
         else (ID result, hd (PaymentErrors (Errors result))))
      else if TxError (Errors result) \<noteq> None then (ID result, TxError (Errors result))
      else if length (InvoiceErrors result) > 0 then
        (if length (InvoiceErrors result) \<noteq> 1
         then (ID result,
               Some (Errorf ''invalid number of invoice errors. expected 0 or 1, got %d''
                       [int (length (InvoiceErrors result))]))
         else (ID result, Some (invoiceErrorFromProto L (hd (InvoiceErrors result)))))
      else (ID result, None))"

text \<open>
  The memo and the invoice list that \<open>SubmitPayment\<close> builds on the legacy ledger, or the
  error of building them.
\<close>

definition legacyMemoPart :: "lib \<Rightarrow> Payment \<Rightarrow> state \<Rightarrow> error + (Memo \<times> InvoiceList option)" where
  "legacyMemoPart L payment s =
     (if p_Memo payment \<noteq> [] then Inr (MemoTypeText (p_Memo payment), None)
      else if appIndex s > 0 then
        (case hashMemo L (p_Type payment) (appIndex s) (paymentInvoiceList payment) of
           Inl e \<Rightarrow> Inl e
         | Inr m \<Rightarrow> Inr (MemoTypeHash m, paymentInvoiceList payment))
      else Inr (MemoTypeNone, None))"

definition defaultSubmitOpts :: "state \<Rightarrow> solanaOpts" where
  "defaultSubmitOpts s =
     \<lparr>commitment = defaultCommitment s, accountResolution = AccountResolutionPreferred,
      destResolution = AccountResolutionPreferred, subsidizer = None\<rparr>"

definition SubmitPayment ::
  "lib \<Rightarrow> Payment \<Rightarrow> SolanaOption list \<Rightarrow> state \<Rightarrow> (bytes \<times> error option) \<times> state" where
  "SubmitPayment L payment opts s =
     (if kinVersion s > 4 \<or> kinVersion s < 2
      then (([], Some (Errorf ''unsupported kin version: %d'' [int (kinVersion s)])), s)
      else if p_Invoice payment \<noteq> None \<and> appIndex s = 0
      then (([], Some (ErrorNew ''cannot submit payment with invoices without an app index'')), s)
      else if kinVersion s = 4
      then
        (case submitPaymentWithResolution L payment (applyOpts (defaultSubmitOpts s) opts) s of
           ((result, err), s1) \<Rightarrow> (paymentOutcome L result err, s1))
      else
        (case legacyMemoPart L payment s of
           Inl e \<Rightarrow> (([], Some e), s)
         | Inr (m, invoiceList) \<Rightarrow>
             (case signAndSubmitXDR L (legacySigners (p_Channel payment) (p_Sender payment))
                     ((paymentEnvelope L payment s)\<lparr>env_Memo := m\<rparr>) invoiceList s of
                ((result, err), s1) \<Rightarrow>
                  if (case err of None \<Rightarrow> False
                      | Some e \<Rightarrow> status_Code e = FailedPrecondition)
                  then
                    (case submitPaymentWithResolution L payment
                            (applyOpts (defaultSubmitOpts s) opts)
                            (s1\<lparr>kinVersion := 4, internal_kinVersion := 4\<rparr>) of
                       ((result', err'), s2) \<Rightarrow> (paymentOutcome L result' err', s2))
                  else (paymentOutcome L result err, s1))))"

section \<open>Assembling and submitting an earn batch\<close>

text \<open>\<open>kin.TransactionTypeEarn\<close>.\<close>

definition TransactionTypeEarn :: "16 word" where
  "TransactionTypeEarn = 1"

text \<open>The loop of \<open>SubmitEarnBatch\<close> over the earns of a batch that has a text memo.\<close>

fun anyInvoice :: "Earn list \<Rightarrow> bool" where
  "anyInvoice [] = False"
| "anyInvoice (r # rs) = (if e_Invoice r \<noteq> None then True else anyInvoice rs)"

text \<open>
  The loop of \<open>SubmitEarnBatch\<close> over \<open>i < len(batch.Earns)-1\<close>, which compares each earn
  with the next one.
\<close>

fun mixedInvoices :: "Earn list \<Rightarrow> bool" where
  "mixedInvoices (a # b # rs) =
     (if (e_Invoice a = None) \<noteq> (e_Invoice b = None) then True else mixedInvoices (b # rs))"
| "mixedInvoices rs = False"

text \<open>The checks at the head of \<open>SubmitEarnBatch\<close>: the error it returns, if any.\<close>

definition validateEarnBatch :: "EarnBatch \<Rightarrow> state \<Rightarrow> error option" where
  "validateEarnBatch batch s =
     (let earns = earnsMem s (b_Earns batch) in
      if kinVersion s > 4 \<or> kinVersion s < 2
      then Some (Errorf ''unsupported kin version: %d'' [int (kinVersion s)])
      else if length earns = 0
      then Some (ErrorNew ''earn batch must contain at least 1 earn'')
      else if length earns > 15
      then Some (ErrorNew ''earn batch must not contain more than 15 earns'')
      else if b_Memo batch \<noteq> [] then
        (if anyInvoice earns then Some (ErrorNew ''cannot have invoice set when memo is set'')
         else None)
      else if e_Invoice (hd earns) \<noteq> None \<and> appIndex s = 0
      then Some (ErrorNew ''cannot submit earn batch with invoices without an app index'')
      else if mixedInvoices earns
      then Some (ErrorNew ''either all or none of the earns should have an invoice set'')
      else None)"

text \<open>The operations of the legacy envelope of a batch, one for each earn.\<close>

definition earnOperation :: "lib \<Rightarrow> EarnBatch \<Rightarrow> state \<Rightarrow> Earn \<Rightarrow> Operation" where
  "earnOperation L batch s r =
     \<lparr>op_SourceAccount = Public L (b_Sender batch),
      op_Destination = e_Destination r,
      op_Amount = e_Quarks r * (if kinVersion s = 2 then 100 else 1),
      op_Asset = legacyAsset s\<rparr>"

text \<open>The invoices of the earns that have one, in order (legacy \<open>submitEarnBatch\<close>).\<close>

fun earnInvoices :: "Earn list \<Rightarrow> InvoiceList" where
  "earnInvoices [] = []"
| "earnInvoices (r # rs) =
     (case e_Invoice r of
        Some invoice \<Rightarrow> Some invoice # earnInvoices rs
      | None \<Rightarrow> earnInvoices rs)"

definition submitEarnBatch ::
  "lib \<Rightarrow> EarnBatch \<Rightarrow> state \<Rightarrow> (SubmitTransactionResult \<times> error option) \<times> state" where
  "submitEarnBatch L batch s =
     (let earns = earnsMem s (b_Earns batch);
          signers = legacySigners (b_Channel batch) (b_Sender batch);
          envelope =
            \<lparr>SourceAccount = Public L (hd signers),
             Fee = 100 * word_of_nat (length earns), SeqNum = 0,
             Operations = map (earnOperation L batch s) earns,
             env_Memo = MemoTypeNone, Signatures = []\<rparr>;
          memoPart =
            (if b_Memo batch \<noteq> [] then Inr (MemoTypeText (b_Memo batch), None)
             else if length (earnInvoices earns) > 0
                     \<and> length (earnInvoices earns) \<noteq> length earns
             then Inl (Errorf ''either all or none of the earns should have an invoice set'' [])
             else
               (case hashMemo L TransactionTypeEarn (appIndex s)
                       (if length (earnInvoices earns) > 0 then Some (earnInvoices earns)
                        else None) of
                  Inl e \<Rightarrow> Inl e
                | Inr m \<Rightarrow>
                    Inr (MemoTypeHash m,
                         if length (earnInvoices earns) > 0 then Some (earnInvoices earns)
                         else None)))
      in case memoPart of
           Inl e \<Rightarrow> ((zeroResult, Some e), s)
         | Inr (m, invoiceList) \<Rightarrow>
             (case signAndSubmitXDR L signers (envelope\<lparr>env_Memo := m\<rparr>) invoiceList s of
                ((result, Some err), s1) \<Rightarrow> ((result, Some err), s1)
              | ((result, None), s1) \<Rightarrow>
                  if length (InvoiceErrors result) > 0
                  then ((result, Some (ErrorNew ''unexpected invoice errors present'')), s1)
                  else ((result, None), s1)))"

definition submitSolanaEarnBatch ::
  "lib \<Rightarrow> EarnBatch \<Rightarrow> ServiceConfig \<Rightarrow> Commitment \<Rightarrow> PublicKey option \<Rightarrow> PrivateKey option
     \<Rightarrow> state \<Rightarrow> (SubmitTransactionResult \<times> error option) \<times> state" where
  "submitSolanaEarnBatch L batch config cm transferSender subsidizerKey s =
     (let earns = earnsMem s (b_Earns batch);
          subsidizerID =
            (case subsidizerKey of
               Some k \<Rightarrow> Public L k
             | None \<Rightarrow> (case SubsidizerAccount config of None \<Rightarrow> [] | Some v \<Rightarrow> v));
          signers =
            (case subsidizerKey of
               Some k \<Rightarrow> [k, b_Sender batch]
             | None \<Rightarrow> [b_Sender batch]);
          memoPart =
            (if b_Memo batch \<noteq> [] then Inr ([MemoInstruction (b_Memo batch)], None)
             else if appIndex s > 0 then
               (case earns of
                  [] \<Rightarrow> Inl (Panic ''index out of range'')
                | r # rs \<Rightarrow>
                    (case hashMemo L TransactionTypeEarn (appIndex s)
                            (if e_Invoice r \<noteq> None then Some (map e_Invoice earns)
                             else None) of
                       Inl e \<Rightarrow> Inl e
                     | Inr m \<Rightarrow>
                         Inr ([MemoInstruction (EncodeToString L m)],
                              if e_Invoice r \<noteq> None then Some (map e_Invoice earns)
                              else None)))
             else Inr ([], None))
      in case memoPart of
           Inl e \<Rightarrow> ((zeroResult, Some e), s)
         | Inr (instructions, il) \<Rightarrow>
             signAndSubmitTx L signers
               \<lparr>tx_Payer = subsidizerID,
                tx_Instructions = instructions @
                  map (\<lambda>earn.
                         Transfer
                           (case transferSender of
                              None \<Rightarrow> Public L (b_Sender batch) | Some t \<Rightarrow> t)
                           (e_Destination earn) (Public L (b_Sender batch)) (e_Quarks earn))
                      earns,
                tx_Blockhash = [], tx_Signatures = []\<rparr>
               cm il (b_DedupeID batch) s)"

text \<open>
  The loop \<open>for i, earn := range batch.Earns\<close> of \<open>submitEarnBatchWithResolution\<close>, from
  index \<open>i\<close> on, over the earns not yet visited. The assignment
  \<open>batch.Earns[i].Destination = tokenAccounts[0]\<close> writes to the array of the slice.
\<close>

fun resolveEarnDests ::
  "lib \<Rightarrow> nat \<Rightarrow> nat \<Rightarrow> Earn list \<Rightarrow> bool \<Rightarrow> state \<Rightarrow> (error option \<times> bool) \<times> state" where
  "resolveEarnDests L a i [] resubmit s = ((None, resubmit), s)"
| "resolveEarnDests L a i (earn # rest) resubmit s =
     (case resolveFirst L (e_Destination earn) s of
        (Inl err, s1) \<Rightarrow> ((Some err, resubmit), s1)
      | (Inr None, s1) \<Rightarrow> resolveEarnDests L a (Suc i) rest resubmit s1
      | (Inr (Some t), s1) \<Rightarrow>
          resolveEarnDests L a (Suc i) rest True
            (s1\<lparr>earnsMem := (earnsMem s1)
                  (a := (earnsMem s1 a)[i := (earnsMem s1 a ! i)\<lparr>e_Destination := t\<rparr>])\<rparr>))"

definition submitEarnBatchWithResolution ::
  "lib \<Rightarrow> EarnBatch \<Rightarrow> ServiceConfig \<Rightarrow> solanaOpts \<Rightarrow> state
     \<Rightarrow> (SubmitTransactionResult \<times> error option) \<times> state" where
  "submitEarnBatchWithResolution L batch config sOpts s =
     (case submitSolanaEarnBatch L batch config (commitment sOpts) None (subsidizer sOpts) s of
        ((result, Some err), s1) \<Rightarrow> ((result, Some err), s1)
      | ((result, None), s1) \<Rightarrow>
          if TxError (Errors result) \<noteq> Some ErrAccountDoesNotExist
          then ((result, None), s1)
          else
            (case (if accountResolution sOpts = AccountResolutionPreferred
                   then resolveFirst L (Public L (b_Sender batch)) s1
                   else (Inr None, s1)) of
               (Inl err, s2) \<Rightarrow> ((result, Some err), s2)
             | (Inr transferSender, s2) \<Rightarrow>
                 (case (if destResolution sOpts = AccountResolutionPreferred
                        then resolveEarnDests L (b_Earns batch) 0
                               (earnsMem s2 (b_Earns batch)) (transferSender \<noteq> None) s2
                        else ((None, transferSender \<noteq> None), s2)) of
                    ((Some err, resubmit), s3) \<Rightarrow> ((result, Some err), s3)
                  | ((None, resubmit), s3) \<Rightarrow>
                      if resubmit
                      then submitSolanaEarnBatch L batch config (commitment sOpts)
                             transferSender (subsidizer sOpts) s3
                      else ((result, None), s3))))"

text \<open>
  The end of \<open>SubmitEarnBatch\<close>: the \<open>EarnBatchResult\<close> for the result of the submission.
\<close>

definition earnBatchResult :: "lib \<Rightarrow> SubmitTransactionResult \<Rightarrow> EarnBatchResult" where
  "earnBatchResult L submitResult =
     (if TxError (Errors submitResult) \<noteq> None then
        \<lparr>TxID = ID submitResult, r_TxError = TxError (Errors submitResult),
         EarnErrors =
           map (\<lambda>(i, e). \<lparr>EarnIndex = int i, ee_Error = e\<rparr>)
             (enumerate 0 (PaymentErrors (Errors submitResult)))\<rparr>
      else if length (InvoiceErrors submitResult) > 0 then
        \<lparr>TxID = ID submitResult, r_TxError = Some ErrTransactionRejected,
         EarnErrors =
           map (\<lambda>e. \<lparr>EarnIndex = uint (ie_OpIndex e),
                      ee_Error = Some (invoiceErrorFromProto L e)\<rparr>)
             (InvoiceErrors submitResult)\<rparr>
      else \<lparr>TxID = ID submitResult, r_TxError = None, EarnErrors = []\<rparr>)"

definition SubmitEarnBatch ::
  "lib \<Rightarrow> EarnBatch \<Rightarrow> SolanaOption list \<Rightarrow> state
     \<Rightarrow> (EarnBatchResult \<times> error option) \<times> state" where
  "SubmitEarnBatch L batch opts s =
     (case validateEarnBatch batch s of
        Some err \<Rightarrow> ((zeroEarnBatchResult, Some err), s)
      | None \<Rightarrow>
          if kinVersion s = 2 \<or> kinVersion s = 3 then
            (case submitEarnBatch L batch s of
               ((submitResult, Some err), s1) \<Rightarrow> ((zeroEarnBatchResult, Some err), s1)
             | ((submitResult, None), s1) \<Rightarrow> ((earnBatchResult L submitResult, None), s1))
          else
            (case GetServiceConfig s of
               (Inl err, s1) \<Rightarrow> ((zeroEarnBatchResult, Some err), s1)
             | (Inr config, s1) \<Rightarrow>
                 if SubsidizerAccount config = None
                    \<and> subsidizer (applyOpts (defaultSubmitOpts s) opts) = None
                 then ((zeroEarnBatchResult, Some ErrNoSubsidizer), s1)
                 else
                   (case submitEarnBatchWithResolution L batch config
                           (applyOpts (defaultSubmitOpts s) opts) s1 of
                      ((submitResult, Some err), s2) \<Rightarrow> ((zeroEarnBatchResult, Some err), s2)
                    | ((submitResult, None), s2) \<Rightarrow>
                        ((earnBatchResult L submitResult, None), s2))))"

section \<open>The sign-transaction webhook (client/webhook.go)\<close>

definition AgoraHMACHeader :: string where
  "AgoraHMACHeader = ''X-Agora-HMAC-SHA256''"

definition AppUserIDHeader :: string where
  "AppUserIDHeader = ''X-App-User-ID''"

definition AppUserPasskeyHeader :: string where
  "AppUserPasskeyHeader = ''X-App-User-Passkey''"

text \<open>
  An HTTP request: its method, its body (\<open>None\<close> when reading it fails) and
  \<open>Header.Get\<close>, which gives the empty string for a header that is absent.
\<close>

record Request =
  rq_Method :: string
  rq_Body :: "bytes option"
  rq_Header :: "string \<Rightarrow> string"

text \<open>\<open>signtransaction.Request\<close>, the decoded JSON body.\<close>

record signRequest =
  sr_KinVersion :: int
  sr_EnvelopeXDR :: bytes
  sr_SolanaTransaction :: bytes
  sr_InvoiceList :: bytes

record 'p SignTransactionRequest =
  UserID :: string
  UserPasskey :: string
  Payments :: "'p list"
  rq_Envelope :: "Envelope option"
  SolanaTransaction :: "Transaction option"

record SignTransactionResponse =
  rs_envelope :: "Envelope option"
  rejected :: bool
  rs_errors :: "(32 word \<times> nat) list"

text \<open>
  The decoders and encoders the handler calls, as parameters: base64, HMAC-SHA256 (key,
  then message), JSON and protobuf decoding, the transaction decoders, the payment parsers
  (not among the sources; the envelope parser also gets the ledger version), and the
  failures of encoding the response. \<open>'p\<close> is \<open>ReadOnlyPayment\<close>.
\<close>

record 'p wlib =
  DecodeString :: "string \<Rightarrow> error + bytes"
  hmacSHA256 :: "bytes \<Rightarrow> bytes \<Rightarrow> bytes"
  jsonUnmarshal :: "bytes \<Rightarrow> error + signRequest"
  protoUnmarshal :: "bytes \<Rightarrow> error + InvoiceList"
  txUnmarshal :: "bytes \<Rightarrow> error + Transaction"
  envelopeUnmarshal :: "bytes \<Rightarrow> error + Envelope"
  parsePaymentsFromTransaction :: "Transaction \<Rightarrow> InvoiceList option \<Rightarrow> error + 'p list"
  parsePaymentsFromEnvelope :: "Envelope \<Rightarrow> InvoiceList option \<Rightarrow> int \<Rightarrow> error + 'p list"
  envelopeMarshalErr :: "Envelope \<Rightarrow> error option"
  encodeErr :: "SignTransactionResponse \<Rightarrow> error option"

definition verifySignature ::
  "'p wlib \<Rightarrow> (string \<Rightarrow> string) \<Rightarrow> bytes \<Rightarrow> bytes \<Rightarrow> error option" where
  "verifySignature W header body secret =
     (if header AgoraHMACHeader = [] then Some (ErrorNew ''missing signature'')
      else
        (case DecodeString W (header AgoraHMACHeader) of
           Inl e \<Rightarrow> Some (Wrap e ''invalid signature'')
         | Inr sig \<Rightarrow>
             if hmacSHA256 W secret body \<noteq> sig then Some (ErrorNew ''hmac signature mismatch'')
             else None))"

text \<open>
  The parts of the handler after the ledger version is accepted. First the invoice list
  is decoded, when the request has one.
\<close>

definition decodeInvoiceList :: "'p wlib \<Rightarrow> signRequest \<Rightarrow> error + InvoiceList option" where
  "decodeInvoiceList W signReq =
     (if length (sr_InvoiceList signReq) > 0
      then (case protoUnmarshal W (sr_InvoiceList signReq) of
              Inl e \<Rightarrow> Inl e | Inr il \<Rightarrow> Inr (Some il))
      else Inr None)"

text \<open>
  Then the transaction is decoded and its payments are parsed, which gives the request
  and the response that the callback gets.
\<close>

definition decodeTransaction ::
  "'p wlib \<Rightarrow> Request \<Rightarrow> signRequest \<Rightarrow> int \<Rightarrow> InvoiceList option
     \<Rightarrow> error + ('p SignTransactionRequest \<times> SignTransactionResponse)" where
  "decodeTransaction W r signReq kv invoiceList =
     (if kv = 4 then
        (case txUnmarshal W (sr_SolanaTransaction signReq) of
           Inl e \<Rightarrow> Inl e
         | Inr tx \<Rightarrow>
             (case parsePaymentsFromTransaction W tx invoiceList of
                Inl e \<Rightarrow> Inl e
              | Inr ps \<Rightarrow>
                  Inr (\<lparr>UserID = rq_Header r AppUserIDHeader,
                        UserPasskey = rq_Header r AppUserPasskeyHeader,
                        Payments = ps, rq_Envelope = None,
                        SolanaTransaction = Some tx\<rparr>,
                       \<lparr>rs_envelope = None, rejected = False, rs_errors = []\<rparr>)))
      else
        (case envelopeUnmarshal W (sr_EnvelopeXDR signReq) of
           Inl e \<Rightarrow> Inl e
         | Inr envelope \<Rightarrow>
             (case parsePaymentsFromEnvelope W envelope invoiceList kv of
                Inl e \<Rightarrow> Inl e
              | Inr ps \<Rightarrow>
                  Inr (\<lparr>UserID = rq_Header r AppUserIDHeader,
                        UserPasskey = rq_Header r AppUserPasskeyHeader,
                        Payments = ps, rq_Envelope = Some envelope,
                        SolanaTransaction = None\<rparr>,
                       \<lparr>rs_envelope = Some envelope, rejected = False,
                        rs_errors = []\<rparr>))))"

text \<open>Then the callback \<open>f\<close> runs and the response is written: the HTTP status.\<close>

definition callAndRespond ::
  "'p wlib
     \<Rightarrow> ('p SignTransactionRequest \<Rightarrow> SignTransactionResponse
           \<Rightarrow> error option \<times> SignTransactionResponse)
     \<Rightarrow> 'p SignTransactionRequest \<Rightarrow> SignTransactionResponse \<Rightarrow> nat" where
  "callAndRespond W f req resp =
     (case f req resp of
        (Some e, resp') \<Rightarrow> 500
      | (None, resp') \<Rightarrow>
          if rejected resp' then 403
          else
            (case (case rs_envelope resp' of
                     None \<Rightarrow> None | Some e \<Rightarrow> envelopeMarshalErr W e) of
               Some e \<Rightarrow> 500
             | None \<Rightarrow> (case encodeErr W resp' of Some e \<Rightarrow> 500 | None \<Rightarrow> 200)))"

definition signTransactionRespond ::
  "'p wlib
     \<Rightarrow> ('p SignTransactionRequest \<Rightarrow> SignTransactionResponse
           \<Rightarrow> error option \<times> SignTransactionResponse)
     \<Rightarrow> Request \<Rightarrow> signRequest \<Rightarrow> int \<Rightarrow> nat" where
  "signTransactionRespond W f r signReq kv =
     (case decodeInvoiceList W signReq of
        Inl e \<Rightarrow> 400
      | Inr invoiceList \<Rightarrow>
          (case decodeTransaction W r signReq kv invoiceList of
             Inl e \<Rightarrow> 400
           | Inr (req, resp) \<Rightarrow> callAndRespond W f req resp))"

definition SignTransactionHandler ::
  "'p wlib \<Rightarrow> bytes
     \<Rightarrow> ('p SignTransactionRequest \<Rightarrow> SignTransactionResponse
           \<Rightarrow> error option \<times> SignTransactionResponse)
     \<Rightarrow> Request \<Rightarrow> nat" where
  "SignTransactionHandler W secret f r =
     (if rq_Method r \<noteq> ''POST'' then 405
      else
        (case rq_Body r of
           None \<Rightarrow> 400
         | Some body \<Rightarrow>
             if length secret > 0 \<and> verifySignature W (rq_Header r) body secret \<noteq> None
             then 401
             else
               (case jsonUnmarshal W body of
                  Inl e \<Rightarrow> 400
                | Inr signReq \<Rightarrow>
                    (let kv = (if sr_KinVersion signReq = 0 then 3 else sr_KinVersion signReq)
                     in if kv < 2 \<or> kv > 4 then 400
                        else signTransactionRespond W f r signReq kv))))"

section \<open>Definitions for stating the properties\<close>

subsection \<open>Error precedence, in the specification's wording\<close>




subsection \<open>Cache freshness, webhook signature, outcomes of the retry loops\<close>

text \<open>
  The freshness check of \<open>resolveTokenAccounts\<close> as a function of the state: the cache
  has an entry for the account, and the clock reads less than 5 minutes after the entry
  was created.
\<close>

definition cacheFresh :: "lib \<Rightarrow> PublicKey \<Rightarrow> state \<Rightarrow> bool" where
  "cacheFresh L account s =
     (case map_of (accountCache s) (Base58 L account) of
        None \<Rightarrow> False
      | Some entry \<Rightarrow> clock s (ticks s) - created entry < ttl)"

text \<open>
  The signature of a request matches: the header has a value, and its base64 decoding is
  the HMAC-SHA256 of the body under the secret.
\<close>

definition signatureMatches :: "'p wlib \<Rightarrow> Request \<Rightarrow> bytes \<Rightarrow> bytes \<Rightarrow> bool" where
  "signatureMatches W r body secret =
     (rq_Header r AgoraHMACHeader \<noteq> []
      \<and> DecodeString W (rq_Header r AgoraHMACHeader) = Inr (hmacSHA256 W secret body))"

text \<open>The ledger version of a request, 0 standing for 3.\<close>

definition effectiveVersion :: "signRequest \<Rightarrow> int" where
  "effectiveVersion signReq = (if sr_KinVersion signReq = 0 then 3 else sr_KinVersion signReq)"

text \<open>
  The outcome of one submission, as both retry loops map it: the error of the RPC with the
  zero result, or the result, with the error \<open>ErrBadNonce\<close> when its transaction error
  is that one.
\<close>

definition outcomeOf ::
  "error + SubmitTransactionResult \<Rightarrow> SubmitTransactionResult \<times> error option" where
  "outcomeOf resp =
     (case resp of
        Inl e \<Rightarrow> (zeroResult, Some e)
      | Inr res \<Rightarrow>
          (res, if TxError (Errors res) = Some ErrBadNonce then Some ErrBadNonce else None))"

text \<open>
  The sequence numbers of the submissions of one call of \<open>signAndSubmitXDR\<close>, whose
  first one gets the response number \<open>k\<close>: the first carries \<open>sq\<close>; a submission is
  followed by another one only if its outcome was \<open>ErrBadNonce\<close>, and the next one then
  carries one more when that outcome was a transaction error of the result.
\<close>

fun seqChain ::
  "(nat \<Rightarrow> error + SubmitTransactionResult) \<Rightarrow> nat \<Rightarrow> 64 word \<Rightarrow> StellarSubmit list \<Rightarrow> bool"
  where
  "seqChain resp k sq [] = True"
| "seqChain resp k sq (x # xs) =
     (SeqNum (ss_Envelope x) = sq
      \<and> (xs = []
         \<or> (snd (outcomeOf (resp k)) = Some ErrBadNonce
            \<and> seqChain resp (Suc k) (case resp k of Inl e \<Rightarrow> sq | Inr res \<Rightarrow> sq + 1) xs)))"

text \<open>
  What the loop of \<open>signAndSubmitXDR\<close> has done when it returns after attempt \<open>n\<close>,
  started at attempt \<open>i\<close> with \<open>offset\<close>: \<open>new\<close> are the submissions it made.
\<close>

definition xdrLoopPost ::
  "nat \<Rightarrow> nat \<Rightarrow> 64 word \<Rightarrow> InvoiceList option \<Rightarrow> 64 word \<Rightarrow> Envelope \<Rightarrow> state
     \<Rightarrow> nat \<Rightarrow> error option \<Rightarrow> SubmitTransactionResult \<Rightarrow> state \<Rightarrow> StellarSubmit list \<Rightarrow> bool"
  where
  "xdrLoopPost limit i seq il offset env s n err r' s' new =
     (s' = s\<lparr>stellarSubmits := stellarSubmits s @ new\<rparr>
      \<and> length new \<le> Suc n - i
      \<and> seqChain (stellarSubmitResp s) (length (stellarSubmits s)) (seq + offset) new
      \<and> (\<forall>x\<in>set new. (\<exists>sq sigs. ss_Envelope x = env\<lparr>SeqNum := sq, Signatures := sigs\<rparr>)
                       \<and> ss_InvoiceList x = il)
      \<and> ((err = None \<or> err = Some ErrBadNonce) \<longrightarrow>
            new \<noteq> [] \<and> length new = Suc n - i
            \<and> (r', err) = outcomeOf (stellarSubmitResp s
                                       (length (stellarSubmits s) + length new - 1)))
      \<and> (err = Some ErrBadNonce \<longrightarrow> limit \<le> n))"

text \<open>The same for the loop of \<open>signAndSubmitTx\<close>.\<close>

definition txLoopPost ::
  "nat \<Rightarrow> nat \<Rightarrow> Commitment \<Rightarrow> InvoiceList option \<Rightarrow> bytes \<Rightarrow> SubmitTransactionResult
     \<Rightarrow> Transaction \<Rightarrow> state
     \<Rightarrow> nat \<Rightarrow> error option \<Rightarrow> SubmitTransactionResult \<Rightarrow> state \<Rightarrow> SolanaSubmit list \<Rightarrow> bool"
  where
  "txLoopPost limit i cm il d r0 tx s n err r' s' new =
     (s' = s\<lparr>blockhashReqs := blockhashReqs s + (Suc n - i),
             solanaSubmits := solanaSubmits s @ new\<rparr>
      \<and> length new \<le> Suc n - i
      \<and> (\<forall>x\<in>set new.
            (\<exists>bh sigs. so_Transaction x = tx\<lparr>tx_Blockhash := bh, tx_Signatures := sigs\<rparr>)
            \<and> so_InvoiceList x = il \<and> so_Commitment x = cm \<and> so_DedupeID x = d)
      \<and> (err = None \<longrightarrow>
            new \<noteq> []
            \<and> (r', err) = outcomeOf (solanaSubmitResp s
                                       (length (solanaSubmits s) + length new - 1)))
      \<and> (new = [] \<longrightarrow> r' = r0)
      \<and> (err = Some ErrBadNonce \<longrightarrow> limit \<le> n))"

subsection \<open>The memo policy, in the specification's wording, and frames of a call\<close>

text \<open>
  The memo policy as the specification words it. A payment's memo is its text memo; else,
  with an app index, the structured memo \<open>kin.NewMemo(1, type, app index, hash)\<close>, where
  the hash is the SHA-224 of the serialised list of the invoice, or 28 zero bytes when
  there is no invoice; else none. \<open>None\<close>: the memo cannot be built and no transaction
  is assembled.
\<close>

datatype memoChoice = TextMemo string | StructuredMemo bytes | NoMemo

definition invoiceListHash :: "lib \<Rightarrow> Payment \<Rightarrow> bytes option" where
  "invoiceListHash L payment =
     (case p_Invoice payment of
        None \<Rightarrow> Some (replicate 28 0)
      | Some invoice \<Rightarrow>
          (case Marshal L [Some invoice] of
             Inl e \<Rightarrow> None
           | Inr serialized \<Rightarrow> Some (Sum224 L serialized)))"

definition selectMemo :: "lib \<Rightarrow> Payment \<Rightarrow> 16 word \<Rightarrow> memoChoice option" where
  "selectMemo L payment idx =
     (if p_Memo payment \<noteq> [] then Some (TextMemo (p_Memo payment))
      else if idx > 0 then
        (case invoiceListHash L payment of
           None \<Rightarrow> None
         | Some fk \<Rightarrow>
             (case NewMemo L 1 (p_Type payment) idx fk of
                Inl e \<Rightarrow> None
              | Inr m \<Rightarrow> Some (StructuredMemo m)))
      else Some NoMemo)"

text \<open>The memo field of a legacy envelope and the memo instructions of a token
  transaction for a choice of memo.\<close>

fun legacyMemo :: "memoChoice \<Rightarrow> Memo" where
  "legacyMemo (TextMemo t) = MemoTypeText t"
| "legacyMemo (StructuredMemo m) = MemoTypeHash m"
| "legacyMemo NoMemo = MemoTypeNone"

fun memoInstructions :: "lib \<Rightarrow> memoChoice \<Rightarrow> Instruction list" where
  "memoInstructions L (TextMemo t) = [MemoInstruction t]"
| "memoInstructions L (StructuredMemo m) = [MemoInstruction (EncodeToString L m)]"
| "memoInstructions L NoMemo = []"

text \<open>
  A legacy submission carries the memo of the policy; a token-ledger submission is the
  memo instructions of the policy followed by one transfer.
\<close>

definition legacyMemoOk :: "lib \<Rightarrow> Payment \<Rightarrow> 16 word \<Rightarrow> StellarSubmit \<Rightarrow> bool" where
  "legacyMemoOk L payment idx x =
     (case selectMemo L payment idx of
        None \<Rightarrow> False
      | Some c \<Rightarrow> env_Memo (ss_Envelope x) = legacyMemo c)"

definition tokenMemoOk :: "lib \<Rightarrow> Payment \<Rightarrow> 16 word \<Rightarrow> SolanaSubmit \<Rightarrow> bool" where
  "tokenMemoOk L payment idx x =
     (case selectMemo L payment idx of
        None \<Rightarrow> False
      | Some c \<Rightarrow>
          (case tx_Instructions (so_Transaction x) of
             [] \<Rightarrow> False
           | i # is \<Rightarrow>
               butlast (i # is) = memoInstructions L c
               \<and> (case last (i # is) of MemoInstruction t \<Rightarrow> False
                   | Transfer a b c d \<Rightarrow> True)))"

text \<open>
  The transfer of a token-ledger submission of a payment: the last instruction, from the
  transfer sender (the sender's own account when none is given) to the destination.
\<close>

definition transferIs :: "lib \<Rightarrow> Payment \<Rightarrow> PublicKey option \<Rightarrow> SolanaSubmit \<Rightarrow> bool" where
  "transferIs L payment transferSender x =
     (case tx_Instructions (so_Transaction x) of
        [] \<Rightarrow> False
      | i # is \<Rightarrow>
          last (i # is) =
            Transfer (case transferSender of None \<Rightarrow> Public L (p_Sender payment) | Some t \<Rightarrow> t)
              (p_Destination payment) (Public L (p_Sender payment)) (p_Quarks payment))"

text \<open>
  What a call may change: it keeps the app index, the nonce retry limit, the versions and
  the earn arrays, appends submissions that satisfy \<open>P\<close> (legacy) and \<open>Q\<close> (token ledger)
  to the logs, and requests at most \<open>m\<close> blockhashes. \<open>logsFrame\<close> is the same without
  the versions and the counts.
\<close>

definition callFrame ::
  "(StellarSubmit \<Rightarrow> bool) \<Rightarrow> (SolanaSubmit \<Rightarrow> bool) \<Rightarrow> nat \<Rightarrow> state \<Rightarrow> state \<Rightarrow> bool" where
  "callFrame P Q m s s' =
     (appIndex s' = appIndex s \<and> maxSequenceRetries s' = maxSequenceRetries s
      \<and> kinVersion s' = kinVersion s \<and> internal_kinVersion s' = internal_kinVersion s
      \<and> earnsMem s' = earnsMem s
      \<and> (\<exists>new. stellarSubmits s' = stellarSubmits s @ new \<and> list_all P new)
      \<and> (\<exists>new. solanaSubmits s' = solanaSubmits s @ new \<and> list_all Q new)
      \<and> blockhashReqs s \<le> blockhashReqs s' \<and> blockhashReqs s' \<le> blockhashReqs s + m)"

definition logsFrame ::
  "(StellarSubmit \<Rightarrow> bool) \<Rightarrow> (SolanaSubmit \<Rightarrow> bool) \<Rightarrow> state \<Rightarrow> state \<Rightarrow> bool" where
  "logsFrame P Q s s' =
     (appIndex s' = appIndex s
      \<and> (\<exists>new. stellarSubmits s' = stellarSubmits s @ new \<and> list_all P new)
      \<and> (\<exists>new. solanaSubmits s' = solanaSubmits s @ new \<and> list_all Q new))"

section \<open>Concrete clients and environments\<close>

text \<open>
  Library functions for concrete runs: the public key of a private key is the key
  itself, the encodings are the identity on bytes, the hash is the empty string, and
  nothing fails.
\<close>

definition testLib :: lib where
  "testLib =
     \<lparr>Public = (\<lambda>k. k), Base58 = map (\<lambda>b. char_of (unat b)),
      Marshal = (\<lambda>l. Inr []), Sum224 = (\<lambda>b. replicate 28 0),
      NewMemo = (\<lambda>v t idx fk. Inr fk), EncodeToString = map (\<lambda>b. char_of (unat b)),
      signEnvelopeErr = (\<lambda>e k. None), marshalBinaryErr = (\<lambda>e. None),
      txSignErr = (\<lambda>t ks. None), invoiceErrorFromProto = (\<lambda>e. OtherError ''invoice error'')\<rparr>"

text \<open>
  A client as \<open>New\<close> makes it (Kin 3, 10 retries, 3 nonce retries, commitment SINGLE)
  with app index 1, an empty cache, no earn arrays, and an environment in which the clock
  stands at 0, the sender's sequence number is 7, the service has the subsidizer \<open>[9]\<close>,
  every submission succeeds and no token account resolves.
\<close>

definition testState :: state where
  "testState =
     \<lparr>kinVersion = 3, internal_kinVersion = 3, appIndex = 1, maxRetries = 10,
      maxSequenceRetries = 3, whitelistKey = [], kinIssuer = [],
      defaultCommitment = SINGLE, accountCache = [], earnsMem = (\<lambda>a. []),
      clock = (\<lambda>n. 0), ticks = 0,
      accountInfoResp = (\<lambda>n. Inr \<lparr>Balance = 0, SequenceNumber = 7\<rparr>),
      accountInfoReqs = [],
      stellarSubmitResp = (\<lambda>n. Inr zeroResult), stellarSubmits = [],
      serviceConfigResp = (\<lambda>n. Inr \<lparr>SubsidizerAccount = Some [9]\<rparr>),
      serviceConfigReqs = 0,
      blockhashResp = (\<lambda>n. Inr []), blockhashReqs = 0,
      solanaSubmitResp = (\<lambda>n. Inr zeroResult), solanaSubmits = [],
      resolveResp = (\<lambda>n. Inr []), resolveReqs = []\<rparr>"

definition testEarn :: Earn where
  "testEarn = \<lparr>e_Destination = [2], e_Quarks = 10, e_Invoice = None\<rparr>"

definition testBatch :: EarnBatch where
  "testBatch =
     \<lparr>b_Sender = [1], b_Channel = None, b_Memo = [], b_Earns = 0, b_DedupeID = []\<rparr>"

text \<open>
  A token-ledger client whose cache holds the accounts \<open>[[5]]\<close> of the account \<open>[2]\<close>,
  created at time 0, with the clock standing at \<open>now\<close>.
\<close>

definition cachedState :: "int \<Rightarrow> state" where
  "cachedState now =
     testState\<lparr>kinVersion := 4, internal_kinVersion := 4,
       accountCache := [(Base58 testLib [2], \<lparr>created = 0, accounts = [[5]]\<rparr>)],
       clock := (\<lambda>n. now)\<rparr>"

text \<open>
  Two request bodies: the JSON text of the empty object (an opening and a closing brace),
  and the JSON text of the object whose one field, \<open>kin_version\<close>, is 5.
\<close>

definition emptyObject :: bytes where
  "emptyObject = [123, 125]"

definition version5Object :: bytes where
  "version5Object =
     [123, 34, 107, 105, 110, 95, 118, 101, 114, 115, 105, 111, 110, 34, 58, 53, 125]"

text \<open>
  Decoders for concrete runs. The JSON decoder decodes the two bodies above, to the
  request with no field set and to the request of version 5, and rejects every other
  body, the empty one among them. The transaction decoders reject the empty input. The
  HMAC is a stand-in whose digest is always 32 zero bytes, and the base64 decoder decodes
  the text of 32 zero bytes (43 letters A and a padding sign) and rejects every other
  text.
\<close>

definition zeroDigestText :: string where
  "zeroDigestText = replicate 43 (CHR ''A'') @ ''=''"

definition testWlib :: "nat wlib" where
  "testWlib =
     \<lparr>DecodeString = (\<lambda>x. if x = zeroDigestText then Inr (replicate 32 0)
                            else Inl (OtherError ''illegal base64 data'')),
      hmacSHA256 = (\<lambda>k m. replicate 32 0),
      jsonUnmarshal =
        (\<lambda>b. if b = emptyObject
              then Inr \<lparr>sr_KinVersion = 0, sr_EnvelopeXDR = [],
                        sr_SolanaTransaction = [], sr_InvoiceList = []\<rparr>
              else if b = version5Object
              then Inr \<lparr>sr_KinVersion = 5, sr_EnvelopeXDR = [],
                        sr_SolanaTransaction = [], sr_InvoiceList = []\<rparr>
              else Inl (OtherError ''invalid JSON'')),
      protoUnmarshal = (\<lambda>b. Inr []),
      txUnmarshal =
        (\<lambda>b. if b = [] then Inl (OtherError ''empty transaction'')
              else Inr \<lparr>tx_Payer = [], tx_Instructions = [], tx_Blockhash = [],
                        tx_Signatures = []\<rparr>),
      envelopeUnmarshal =
        (\<lambda>b. if b = [] then Inl (OtherError ''empty envelope'')
              else Inr \<lparr>SourceAccount = [], Fee = 100, SeqNum = 0,
                        Operations = [], env_Memo = MemoTypeNone,
                        Signatures = []\<rparr>),
      parsePaymentsFromTransaction = (\<lambda>t il. Inr []),
      parsePaymentsFromEnvelope = (\<lambda>e il v. Inr []),
      envelopeMarshalErr = (\<lambda>e. None), encodeErr = (\<lambda>r. None)\<rparr>"

text \<open>
  Requests: a POST of a body with no header; the same with the signature header set to
  the text of 32 zero bytes; a GET with no header; a POST whose body cannot be read. A
  callback that accepts every request.
\<close>

definition unsignedPost :: "bytes \<Rightarrow> Request" where
  "unsignedPost body = \<lparr>rq_Method = ''POST'', rq_Body = Some body, rq_Header = (\<lambda>h. [])\<rparr>"

definition signedPost :: "bytes \<Rightarrow> Request" where
  "signedPost body =
     \<lparr>rq_Method = ''POST'', rq_Body = Some body,
      rq_Header = (\<lambda>h. if h = AgoraHMACHeader then zeroDigestText else [])\<rparr>"

definition unsignedGet :: Request where
  "unsignedGet = \<lparr>rq_Method = ''GET'', rq_Body = Some emptyObject, rq_Header = (\<lambda>h. [])\<rparr>"

definition unreadablePost :: Request where
  "unreadablePost = \<lparr>rq_Method = ''POST'', rq_Body = None, rq_Header = (\<lambda>h. [])\<rparr>"

definition acceptAll ::
  "nat SignTransactionRequest \<Rightarrow> SignTransactionResponse
     \<Rightarrow> error option \<times> SignTransactionResponse" where
  "acceptAll req resp = (None, resp)"





text \<open>
  A token-ledger client with one resolution attempt, in an environment where the first
  submission fails with \<open>ErrAccountDoesNotExist\<close> and the later ones succeed, the first
  resolution finds no account and the later ones find the account \<open>[7]\<close>; a payment
  from \<open>[1]\<close> to \<open>[2]\<close>; the service configuration.
\<close>

definition absentResult :: SubmitTransactionResult where
  "absentResult =
     \<lparr>ID = [], Errors = \<lparr>TxError = Some ErrAccountDoesNotExist, OpErrors = [],
                          PaymentErrors = []\<rparr>,
      InvoiceErrors = []\<rparr>"

definition resolvingState :: state where
  "resolvingState =
     testState\<lparr>kinVersion := 4, internal_kinVersion := 4, maxRetries := 1,
       solanaSubmitResp := (\<lambda>n. if n = 0 then Inr absentResult else Inr zeroResult),
       resolveResp := (\<lambda>n. if n = 0 then Inr [] else Inr [[7]])\<rparr>"

definition testPayment :: Payment where
  "testPayment =
     \<lparr>p_Sender = [1], p_Destination = [2], p_Type = 1, p_Quarks = 10, p_Invoice = None,
      p_Memo = [], p_Channel = None, p_DedupeID = []\<rparr>"

definition testConfig :: ServiceConfig where
  "testConfig = \<lparr>SubsidizerAccount = Some [9]\<rparr>"

text \<open>
  A Kin 3 client with a batch of one earn, in an environment where the legacy ledger
  answers every submission with FailedPrecondition; and the resolving client with a
  batch of one earn.
\<close>

definition migratedState :: state where
  "migratedState =
     testState\<lparr>earnsMem := (\<lambda>a. [testEarn]),
       stellarSubmitResp := (\<lambda>n. Inl (StatusError FailedPrecondition ''unsupported version''))\<rparr>"

definition resolvingBatchState :: state where
  "resolvingBatchState = resolvingState\<lparr>earnsMem := (\<lambda>a. [testEarn])\<rparr>"

section \<open>Properties\<close>

subsection \<open>Validation of an earn batch\<close>

lemma anyInvoice_iff: "anyInvoice rs \<longleftrightarrow> (\<exists>r\<in>set rs. e_Invoice r \<noteq> None)"
  by (induction rs) auto

lemma mixedInvoices_iff:
  "mixedInvoices rs \<longleftrightarrow> (\<exists>a\<in>set rs. e_Invoice a = None) \<and> (\<exists>b\<in>set rs. e_Invoice b \<noteq> None)"
  by (induction rs rule: mixedInvoices.induct) auto

lemma validate_rejects:
  assumes "earns = earnsMem s (b_Earns batch)"
    and "length earns = 0 \<or> 15 < length earns
         \<or> ((\<exists>a\<in>set earns. e_Invoice a = None) \<and> (\<exists>b\<in>set earns. e_Invoice b \<noteq> None))
         \<or> (b_Memo batch \<noteq> [] \<and> (\<exists>r\<in>set earns. e_Invoice r \<noteq> None))
         \<or> ((\<exists>r\<in>set earns. e_Invoice r \<noteq> None) \<and> appIndex s = 0)"
  shows "validateEarnBatch batch s \<noteq> None"
proof (cases "earns = []")
  case True
  then show ?thesis using assms(1) by (simp add: validateEarnBatch_def Let_def)
next
  case False
  then have hd_in: "hd earns \<in> set earns" by simp
  consider (big) "15 < length earns"
    | (mixed) "(\<exists>a\<in>set earns. e_Invoice a = None) \<and> (\<exists>b\<in>set earns. e_Invoice b \<noteq> None)"
    | (memo) "b_Memo batch \<noteq> []" "\<exists>r\<in>set earns. e_Invoice r \<noteq> None"
    | (idx) "\<exists>r\<in>set earns. e_Invoice r \<noteq> None" "appIndex s = 0"
    using assms(2) False by auto
  then show ?thesis
  proof cases
    case big
    then show ?thesis using assms(1) by (simp add: validateEarnBatch_def Let_def)
  next
    case mixed
    then have "mixedInvoices earns" "anyInvoice earns"
      by (auto simp: mixedInvoices_iff anyInvoice_iff)
    then show ?thesis using assms(1) by (simp add: validateEarnBatch_def Let_def)
  next
    case memo
    then have "anyInvoice earns" by (simp add: anyInvoice_iff)
    then show ?thesis using assms(1) memo(1) by (simp add: validateEarnBatch_def Let_def)
  next
    case idx
    show ?thesis
    proof (cases "e_Invoice (hd earns) = None")
      case True
      then have "mixedInvoices earns" "anyInvoice earns"
        using idx(1) hd_in by (auto simp: mixedInvoices_iff anyInvoice_iff)
      then show ?thesis using assms(1) by (simp add: validateEarnBatch_def Let_def)
    next
      case hasInvoice: False
      then have "anyInvoice earns"
        using idx(1) by (auto simp: anyInvoice_iff)
      then show ?thesis
        using assms(1) hasInvoice idx(2) by (simp add: validateEarnBatch_def Let_def)
    qed
  qed
qed

text \<open>
  C5. \<open>SubmitEarnBatch\<close> rejects a batch with no earn, with more than 15 earns, with
  earns of which some have an invoice and some have none, with a text memo and an earn
  that has an invoice, or with an invoice while the app index is 0: it returns an error
  and the zero result, and the state is the one it started in, so that no RPC was issued
  and nothing was retried.
\<close>

theorem SubmitEarnBatch_rejects_invalid_shape:
  assumes "earns = earnsMem s (b_Earns batch)"
    and "length earns = 0 \<or> 15 < length earns
         \<or> ((\<exists>a\<in>set earns. e_Invoice a = None) \<and> (\<exists>b\<in>set earns. e_Invoice b \<noteq> None))
         \<or> (b_Memo batch \<noteq> [] \<and> (\<exists>r\<in>set earns. e_Invoice r \<noteq> None))
         \<or> ((\<exists>r\<in>set earns. e_Invoice r \<noteq> None) \<and> appIndex s = 0)"
  shows "\<exists>e. SubmitEarnBatch L batch opts s = ((zeroEarnBatchResult, Some e), s)"
proof -
  obtain e where "validateEarnBatch batch s = Some e"
    using validate_rejects [OF assms] by auto
  then show ?thesis by (simp add: SubmitEarnBatch_def)
qed

theorem SubmitEarnBatch_rejects_invalid_shape_witness:
  "15 < length (earnsMem (testState\<lparr>earnsMem := (\<lambda>a. replicate 16 testEarn)\<rparr>) (b_Earns testBatch))
   \<and> (\<exists>e. SubmitEarnBatch testLib testBatch []
             (testState\<lparr>earnsMem := (\<lambda>a. replicate 16 testEarn)\<rparr>)
           = ((zeroEarnBatchResult, Some e),
              testState\<lparr>earnsMem := (\<lambda>a. replicate 16 testEarn)\<rparr>))"
proof -
  have big: "15 < length (earnsMem (testState\<lparr>earnsMem := (\<lambda>a. replicate 16 testEarn)\<rparr>)
                        (b_Earns testBatch))"
    by simp
  show ?thesis
    using big
      SubmitEarnBatch_rejects_invalid_shape
        [of "replicate 16 testEarn" "testState\<lparr>earnsMem := (\<lambda>a. replicate 16 testEarn)\<rparr>"
            testBatch testLib "[]"]
    by simp
qed

subsection \<open>Error precedence of a payment submission\<close>

lemma SubmitPayment_outcome:
  "(\<exists>e. SubmitPayment L payment opts s = (([], Some e), s))
   \<or> (\<exists>result err. fst (SubmitPayment L payment opts s) = paymentOutcome L result err)"
  unfolding SubmitPayment_def
  by (simp split: prod.split sum.split option.split) blast


subsection \<open>The retry loop\<close>

lemma Retry_invariant_aux:
  "\<forall>l e l'. P l \<longrightarrow> action l = (e, l') \<longrightarrow> P l' \<Longrightarrow> P l
     \<Longrightarrow> Retry action limit errs i l = (r, l') \<Longrightarrow> P l'"
proof (induction action limit errs i l rule: Retry.induct)
  case (1 action limit errs i l)
  obtain e l1 where a: "action l = (e, l1)" by (cases "action l")
  have P1: "P l1" using "1.prems"(1,2) a by blast
  show ?case
  proof (cases e)
    case None
    then show ?thesis using "1.prems"(3) a P1 by (simp add: Retry.simps)
  next
    case (Some x)
    show ?thesis
    proof (cases "i < limit \<and> x \<in> set errs")
      case True
      have "Retry action limit errs (Suc i) l1 = (r, l')"
        using "1.prems"(3) a Some True by (subst (asm) Retry.simps) simp
      then show ?thesis
        using "1.IH" [OF a [symmetric] Some True "1.prems"(1) P1] by blast
    next
      case False
      then show ?thesis using "1.prems"(3) a Some P1 by (subst (asm) Retry.simps) auto
    qed
  qed
qed

lemma Retry_invariant:
  assumes "\<And>l e l'. P l \<Longrightarrow> action l = (e, l') \<Longrightarrow> P l'"
    and "P l" and "Retry action limit errs i l = (r, l')"
  shows "P l'"
  using Retry_invariant_aux [of P action l limit errs i r l'] assms by blast

lemma Retry_attempts:
  "Retry action limit errs i l = ((n, err), l') \<Longrightarrow> i \<le> n \<and> (n = i \<or> n \<le> limit)"
proof (induction action limit errs i l rule: Retry.induct)
  case (1 action limit errs i l)
  obtain e l1 where a: "action l = (e, l1)" by (cases "action l")
  show ?case
  proof (cases e)
    case None
    then show ?thesis using "1.prems" a by (simp add: Retry.simps)
  next
    case (Some x)
    show ?thesis
    proof (cases "i < limit \<and> x \<in> set errs")
      case True
      have "Retry action limit errs (Suc i) l1 = ((n, err), l')"
        using "1.prems" a Some True by (subst (asm) Retry.simps) simp
      then have "Suc i \<le> n \<and> (n = Suc i \<or> n \<le> limit)"
        using "1.IH" [OF a [symmetric] Some True] by blast
      then show ?thesis using True by auto
    next
      case False
      then show ?thesis using "1.prems" a Some by (subst (asm) Retry.simps) auto
    qed
  qed
qed

lemma Retry_count_aux:
  "\<forall>l e l'. action l = (e, l') \<longrightarrow> f l' \<le> Suc (f l)
     \<Longrightarrow> Retry action limit errs i l = ((n, err), l') \<Longrightarrow> f l' + i \<le> f l + Suc n"
proof (induction action limit errs i l rule: Retry.induct)
  case (1 action limit errs i l)
  obtain e l1 where a: "action l = (e, l1)" by (cases "action l")
  have f1: "f l1 \<le> Suc (f l)" using "1.prems"(1) a by blast
  show ?case
  proof (cases e)
    case None
    then show ?thesis using "1.prems"(2) a f1 by (simp add: Retry.simps)
  next
    case (Some x)
    show ?thesis
    proof (cases "i < limit \<and> x \<in> set errs")
      case True
      have "Retry action limit errs (Suc i) l1 = ((n, err), l')"
        using "1.prems"(2) a Some True by (subst (asm) Retry.simps) simp
      then have "f l' + Suc i \<le> f l1 + Suc n"
        using "1.IH" [OF a [symmetric] Some True "1.prems"(1)] by blast
      then show ?thesis using f1 by simp
    next
      case False
      then show ?thesis using "1.prems"(2) a Some f1 by (subst (asm) Retry.simps) auto
    qed
  qed
qed

lemma Retry_count:
  assumes "\<And>l e l'. action l = (e, l') \<Longrightarrow> f l' \<le> Suc (f l)"
    and "Retry action limit errs i l = ((n, err), l')"
  shows "f l' + i \<le> f l + Suc n"
  using Retry_count_aux [of action f limit errs i l n err l'] assms by blast

lemma Retry_last:
  "Retry action limit errs i l = ((n, err), l') \<Longrightarrow>
     \<exists>l0. action l0 = (err, l')
           \<and> (case err of None \<Rightarrow> True | Some e \<Rightarrow> \<not> (n < limit \<and> e \<in> set errs))"
proof (induction action limit errs i l rule: Retry.induct)
  case (1 action limit errs i l)
  obtain e l1 where a: "action l = (e, l1)" by (cases "action l")
  show ?case
  proof (cases e)
    case None
    then show ?thesis using "1.prems" a by (auto simp add: Retry.simps)
  next
    case (Some x)
    show ?thesis
    proof (cases "i < limit \<and> x \<in> set errs")
      case True
      have "Retry action limit errs (Suc i) l1 = ((n, err), l')"
        using "1.prems" a Some True by (subst (asm) Retry.simps) simp
      then show ?thesis
        using "1.IH" [OF a [symmetric] Some True] by blast
    next
      case False
      then show ?thesis using "1.prems" a Some by (subst (asm) Retry.simps) auto
    qed
  qed
qed

lemma Retry_last_inv_aux:
  "\<forall>l e l'. P l \<longrightarrow> action l = (e, l') \<longrightarrow> P l' \<Longrightarrow> P l
     \<Longrightarrow> Retry action limit errs i l = ((n, err), l')
     \<Longrightarrow> \<exists>l0. P l0 \<and> action l0 = (err, l')
           \<and> (\<forall>e. err = Some e \<longrightarrow> \<not> (n < limit \<and> e \<in> set errs))"
proof (induction action limit errs i l rule: Retry.induct)
  case (1 action limit errs i l)
  obtain e l1 where a: "action l = (e, l1)" by (cases "action l")
  have P1: "P l1" using "1.prems"(1,2) a by blast
  show ?case
  proof (cases e)
    case None
    then have "n = i" "err = None" "l' = l1"
      using "1.prems"(3) a by (simp_all add: Retry.simps)
    then show ?thesis using "1.prems"(2) a None by auto
  next
    case (Some x)
    show ?thesis
    proof (cases "i < limit \<and> x \<in> set errs")
      case True
      have "Retry action limit errs (Suc i) l1 = ((n, err), l')"
        using "1.prems"(3) a Some True by (subst (asm) Retry.simps) simp
      then show ?thesis
        using "1.IH" [OF a [symmetric] Some True "1.prems"(1) P1] by blast
    next
      case False
      then have "n = i" "err = Some x" "l' = l1"
        using "1.prems"(3) a Some by (subst (asm) Retry.simps; auto)+
      then show ?thesis using "1.prems"(2) a Some False by auto
    qed
  qed
qed

lemma Retry_last_inv:
  assumes "\<And>l e l'. P l \<Longrightarrow> action l = (e, l') \<Longrightarrow> P l'"
    and "P l" and "Retry action limit errs i l = ((n, err), l')"
  shows "\<exists>l0. P l0 \<and> action l0 = (err, l')
           \<and> (\<forall>e. err = Some e \<longrightarrow> \<not> (n < limit \<and> e \<in> set errs))"
  using Retry_last_inv_aux [of P action l limit errs i n err l'] assms by blast

subsection \<open>Token account resolution and its cache\<close>

lemma map_of_lru_Add: "map_of (lru_Add k v c) k = Some v"
  by (cases c) (auto simp: lru_Add_def Let_def cacheSize_def split: option.splits)

lemma map_of_filter_neq: "map_of (filter (\<lambda>p. fst p \<noteq> k) c) k = None"
  by (induction c) auto

lemma map_of_lru_Remove: "map_of (lru_Remove k c) k = None"
  by (simp add: lru_Remove_def map_of_filter_neq)

lemma lru_Get_fst: "fst (lru_Get k c) = map_of c k"
  by (simp add: lru_Get_def split: option.splits)

lemma internal_Resolve_frame:
  "internal_ResolveTokenAccounts account s = (r, s') \<Longrightarrow>
     r = resolveResp s (length (resolveReqs s)) \<and> s' = s\<lparr>resolveReqs := resolveReqs s @ [account]\<rparr>"
  by (auto simp: internal_ResolveTokenAccounts_def)


lemma resolveAction_Inl:
  "resolveResp s (length (resolveReqs s)) = Inl x \<Longrightarrow>
   resolveAction account (a0, s) = (Some x, ([], s\<lparr>resolveReqs := resolveReqs s @ [account]\<rparr>))"
  by (simp add: resolveAction_def internal_ResolveTokenAccounts_def)

lemma resolveAction_Inr_empty:
  "resolveResp s (length (resolveReqs s)) = Inr [] \<Longrightarrow>
   resolveAction account (a0, s)
     = (Some errNoTokenAccounts, ([], s\<lparr>resolveReqs := resolveReqs s @ [account]\<rparr>))"
  by (simp add: resolveAction_def internal_ResolveTokenAccounts_def)

lemma resolveAction_Inr:
  "resolveResp s (length (resolveReqs s)) = Inr (a # rest) \<Longrightarrow>
   resolveAction account (a0, s)
     = (None, (a # rest, s\<lparr>resolveReqs := resolveReqs s @ [account]\<rparr>))"
  by (simp add: resolveAction_def internal_ResolveTokenAccounts_def)

lemma resolveAction_cases:
  assumes "resolveAction account (a0, s) = (e, (accs, s'))"
  shows "s' = s\<lparr>resolveReqs := resolveReqs s @ [account]\<rparr>
     \<and> (case resolveResp s (length (resolveReqs s)) of
          Inl x \<Rightarrow> accs = [] \<and> e = Some x
        | Inr a \<Rightarrow> accs = a \<and> e = (if a = [] then Some errNoTokenAccounts else None))"
proof (cases "resolveResp s (length (resolveReqs s))")
  case (Inl x)
  then show ?thesis using assms resolveAction_Inl [OF Inl, of account a0] by simp
next
  case (Inr a)
  show ?thesis
  proof (cases a)
    case Nil
    then show ?thesis using assms Inr resolveAction_Inr_empty [of s account a0] by simp
  next
    case (Cons x xs)
    then show ?thesis using assms Inr resolveAction_Inr [of s x xs account a0] by auto
  qed
qed

lemma resolve_loop:
  assumes "Retry (resolveAction account) limit [errNoTokenAccounts] i (a0, s)
             = ((n, err), (accs, s'))"
  shows "\<exists>reqs. s' = s\<lparr>resolveReqs := resolveReqs s @ reqs @ [account]\<rparr>
           \<and> (case resolveResp s (length (resolveReqs s @ reqs)) of
                Inl x \<Rightarrow> accs = []
              | Inr a \<Rightarrow> accs = a)"
proof -
  let ?P = "\<lambda>l. \<exists>reqs. snd l = s\<lparr>resolveReqs := resolveReqs s @ reqs\<rparr>"
  have step: "\<And>l e l'. ?P l \<Longrightarrow> resolveAction account l = (e, l') \<Longrightarrow> ?P l'"
  proof -
    fix l e l'
    assume p: "?P l" and a: "resolveAction account l = (e, l')"
    obtain reqs where r: "snd l = s\<lparr>resolveReqs := resolveReqs s @ reqs\<rparr>" using p by blast
    have "resolveAction account (fst l, snd l) = (e, (fst l', snd l'))" using a by simp
    then have "snd l' = (snd l)\<lparr>resolveReqs := resolveReqs (snd l) @ [account]\<rparr>"
      using resolveAction_cases by blast
    then have "snd l' = s\<lparr>resolveReqs := resolveReqs s @ (reqs @ [account])\<rparr>"
      using r by simp
    then show "?P l'" by blast
  qed
  have init: "?P (a0, s)"
  proof -
    have "snd (a0, s) = s\<lparr>resolveReqs := resolveReqs s @ []\<rparr>" by simp
    then show ?thesis by blast
  qed
  have "\<exists>l0. ?P l0 \<and> resolveAction account l0 = (err, (accs, s'))
           \<and> (\<forall>e. err = Some e \<longrightarrow> \<not> (n < limit \<and> e \<in> set [errNoTokenAccounts]))"
  proof (rule Retry_last_inv [where P = ?P, OF _ init assms])
    fix l e l'
    assume "?P l" "resolveAction account l = (e, l')"
    then show "?P l'" by (rule step)
  qed
  then obtain l0 where l0: "?P l0" "resolveAction account l0 = (err, (accs, s'))"
    by blast
  obtain reqs where r: "snd l0 = s\<lparr>resolveReqs := resolveReqs s @ reqs\<rparr>" using l0(1) by blast
  have "resolveAction account (fst l0, snd l0) = (err, (accs, s'))" using l0(2) by simp
  then have c: "s' = (snd l0)\<lparr>resolveReqs := resolveReqs (snd l0) @ [account]\<rparr>
     \<and> (case resolveResp (snd l0) (length (resolveReqs (snd l0))) of
          Inl x \<Rightarrow> accs = [] \<and> err = Some x
        | Inr a \<Rightarrow> accs = a \<and> err = (if a = [] then Some errNoTokenAccounts else None))"
    using resolveAction_cases by blast
  have s': "s' = s\<lparr>resolveReqs := resolveReqs s @ reqs @ [account]\<rparr>"
    using c r by simp
  have "case resolveResp s (length (resolveReqs s @ reqs)) of
                Inl x \<Rightarrow> accs = []
              | Inr a \<Rightarrow> accs = a"
    using c r by (cases "resolveResp s (length (resolveReqs s @ reqs))") auto
  then show ?thesis using s' by blast
qed

lemma resolveFetch_spec:
  assumes "resolveFetch L account s = ((accs, err), s')"
  shows "err = None \<and> (\<exists>reqs.
       (case resolveResp s (length (resolveReqs s @ reqs)) of
          Inl x \<Rightarrow> accs = [] | Inr a \<Rightarrow> accs = a)
       \<and> s' = (if accs = [] then s\<lparr>resolveReqs := resolveReqs s @ reqs @ [account]\<rparr>
               else s\<lparr>resolveReqs := resolveReqs s @ reqs @ [account],
                      ticks := Suc (ticks s),
                      accountCache :=
                        lru_Add (Base58 L account)
                          \<lparr>created = clock s (ticks s), accounts = accs\<rparr> (accountCache s)\<rparr>))"
proof -
  obtain n e a1 s1 where
    r: "Retry (resolveAction account) (maxRetries s) [errNoTokenAccounts] 1 ([], s)
          = ((n, e), (a1, s1))"
    by (metis surj_pair)
  obtain reqs where
    s1: "s1 = s\<lparr>resolveReqs := resolveReqs s @ reqs @ [account]\<rparr>"
    and resp: "case resolveResp s (length (resolveReqs s @ reqs)) of
                 Inl x \<Rightarrow> a1 = [] | Inr a \<Rightarrow> a1 = a"
    using resolve_loop [OF r] by blast
  show ?thesis
  proof (cases "a1 = []")
    case True
    then have "accs = []" "err = None" "s' = s1"
      using assms r by (auto simp add: resolveFetch_def)
    then show ?thesis using s1 resp True by auto
  next
    case False
    then have "accs = a1" "err = None"
      "s' = s1\<lparr>ticks := Suc (ticks s1),
               accountCache := lru_Add (Base58 L account)
                 \<lparr>created = clock s1 (ticks s1), accounts = a1\<rparr> (accountCache s1)\<rparr>"
      using assms r by (auto simp add: resolveFetch_def time_Now_def)
    then show ?thesis using s1 resp False by auto
  qed
qed

lemma resolveFetch_facts:
  assumes "resolveFetch L account s = ((accs, err), s')"
  shows "err = None"
    and "length (resolveReqs s) < length (resolveReqs s')"
    and "case resolveResp s (length (resolveReqs s') - 1) of
           Inl x \<Rightarrow> accs = [] | Inr a \<Rightarrow> accs = a"
    and "accs = [] \<Longrightarrow> accountCache s' = accountCache s"
    and "accs \<noteq> [] \<Longrightarrow> accountCache s' =
           lru_Add (Base58 L account) \<lparr>created = clock s (ticks s), accounts = accs\<rparr>
             (accountCache s)"
    and "s' = s\<lparr>resolveReqs := resolveReqs s', ticks := ticks s',
                accountCache := accountCache s'\<rparr>"
proof -
  obtain reqs where
    resp: "case resolveResp s (length (resolveReqs s @ reqs)) of
          Inl x \<Rightarrow> accs = [] | Inr a \<Rightarrow> accs = a"
    and s': "s' = (if accs = [] then s\<lparr>resolveReqs := resolveReqs s @ reqs @ [account]\<rparr>
               else s\<lparr>resolveReqs := resolveReqs s @ reqs @ [account],
                      ticks := Suc (ticks s),
                      accountCache :=
                        lru_Add (Base58 L account)
                          \<lparr>created = clock s (ticks s), accounts = accs\<rparr> (accountCache s)\<rparr>)"
    and e: "err = None"
    using resolveFetch_spec [OF assms] by blast
  show "err = None" by (rule e)
  have reqs: "resolveReqs s' = resolveReqs s @ reqs @ [account]"
    by (subst s') simp
  show "length (resolveReqs s) < length (resolveReqs s')" by (simp add: reqs)
  show "case resolveResp s (length (resolveReqs s') - 1) of
           Inl x \<Rightarrow> accs = [] | Inr a \<Rightarrow> accs = a"
    using resp by (simp add: reqs)
  show "accs = [] \<Longrightarrow> accountCache s' = accountCache s" by (subst s') simp
  show "accs \<noteq> [] \<Longrightarrow> accountCache s' =
           lru_Add (Base58 L account) \<lparr>created = clock s (ticks s), accounts = accs\<rparr>
             (accountCache s)" by (subst s') simp
  show "s' = s\<lparr>resolveReqs := resolveReqs s', ticks := ticks s',
                accountCache := accountCache s'\<rparr>"
    by (subst (1 2 3 4) s') simp
qed

lemma filter_filter_neq:
  "filter (\<lambda>p. fst p \<noteq> k) ((k, v) # filter (\<lambda>p. fst p \<noteq> k) c) = filter (\<lambda>p. fst p \<noteq> k) c"
  by simp

lemma resolveTokenAccounts_miss:
  "map_of (accountCache s) (Base58 L account) = None \<Longrightarrow>
     resolveTokenAccounts L account s = resolveFetch L account s"
  by (simp add: resolveTokenAccounts_def lru_Get_def)

lemma resolveTokenAccounts_fresh:
  "map_of (accountCache s) (Base58 L account) = Some entry \<Longrightarrow>
   clock s (ticks s) - created entry < ttl \<Longrightarrow>
     resolveTokenAccounts L account s =
       ((accounts entry, None),
        s\<lparr>accountCache := (Base58 L account, entry)
                # filter (\<lambda>p. fst p \<noteq> Base58 L account) (accountCache s),
          ticks := Suc (ticks s)\<rparr>)"
  by (simp add: resolveTokenAccounts_def lru_Get_def time_Now_def)

lemma resolveTokenAccounts_stale:
  "map_of (accountCache s) (Base58 L account) = Some entry \<Longrightarrow>
   \<not> clock s (ticks s) - created entry < ttl \<Longrightarrow>
     resolveTokenAccounts L account s =
       resolveFetch L account
         (s\<lparr>ticks := Suc (ticks s),
            accountCache := lru_Remove (Base58 L account) (accountCache s)\<rparr>)"
  by (simp add: resolveTokenAccounts_def lru_Get_def time_Now_def lru_Remove_def)

lemma resolveTokenAccounts_frame:
  assumes "resolveTokenAccounts L account s = ((accs, err), s')"
  shows "err = None"
    and "s' = s\<lparr>resolveReqs := resolveReqs s', ticks := ticks s',
                accountCache := accountCache s'\<rparr>"
proof -
  have "err = None \<and> s' = s\<lparr>resolveReqs := resolveReqs s', ticks := ticks s',
                accountCache := accountCache s'\<rparr>"
  proof (cases "map_of (accountCache s) (Base58 L account)")
    case None
    then have f: "resolveFetch L account s = ((accs, err), s')"
      using assms resolveTokenAccounts_miss by simp
    show ?thesis using resolveFetch_facts(1,6) [OF f] by simp
  next
    case (Some entry)
    show ?thesis
    proof (cases "clock s (ticks s) - created entry < ttl")
      case True
      have "err = None" "s' = s\<lparr>accountCache := (Base58 L account, entry)
                # filter (\<lambda>p. fst p \<noteq> Base58 L account) (accountCache s),
          ticks := Suc (ticks s)\<rparr>"
        using assms resolveTokenAccounts_fresh [OF Some True] by simp_all
      then show ?thesis by simp
    next
      case False
      let ?sE = "s\<lparr>ticks := Suc (ticks s),
            accountCache := lru_Remove (Base58 L account) (accountCache s)\<rparr>"
      have f: "resolveFetch L account ?sE = ((accs, err), s')"
        using assms resolveTokenAccounts_stale [OF Some False] by simp
      have "s' = ?sE\<lparr>resolveReqs := resolveReqs s', ticks := ticks s',
                accountCache := accountCache s'\<rparr>"
        using resolveFetch_facts(6) [OF f] .
      then show ?thesis using resolveFetch_facts(1) [OF f] by simp
    qed
  qed
  then show "err = None" and "s' = s\<lparr>resolveReqs := resolveReqs s', ticks := ticks s',
                accountCache := accountCache s'\<rparr>" by simp_all
qed

text \<open>
  C10. \<open>resolveTokenAccounts\<close> always returns a nil error. When it does not serve the
  account from the cache it queries the network, and if the last query failed, with
  whatever error, it returns the empty list; a list that is not empty is in the cache
  afterwards, and after an empty list the cache has no entry for the account.
\<close>

theorem resolveTokenAccounts_nil_error:
  assumes "resolveTokenAccounts L account s = ((accs, err), s')"
  shows "err = None
     \<and> (\<not> cacheFresh L account s \<longrightarrow>
          length (resolveReqs s) < length (resolveReqs s')
          \<and> ((\<exists>e. resolveResp s (length (resolveReqs s') - 1) = Inl e) \<longrightarrow> accs = [])
          \<and> (accs \<noteq> [] \<longrightarrow>
               (\<exists>t. map_of (accountCache s') (Base58 L account)
                      = Some \<lparr>created = t, accounts = accs\<rparr>))
          \<and> (accs = [] \<longrightarrow> map_of (accountCache s') (Base58 L account) = None))"
proof -
  have e: "err = None" using resolveTokenAccounts_frame(1) [OF assms] .
  have "length (resolveReqs s) < length (resolveReqs s')
          \<and> ((\<exists>e. resolveResp s (length (resolveReqs s') - 1) = Inl e) \<longrightarrow> accs = [])
          \<and> (accs \<noteq> [] \<longrightarrow>
               (\<exists>t. map_of (accountCache s') (Base58 L account)
                      = Some \<lparr>created = t, accounts = accs\<rparr>))
          \<and> (accs = [] \<longrightarrow> map_of (accountCache s') (Base58 L account) = None)"
    if nf: "\<not> cacheFresh L account s"
  proof (cases "map_of (accountCache s) (Base58 L account)")
    case None
    then have f: "resolveFetch L account s = ((accs, err), s')"
      using assms resolveTokenAccounts_miss by simp
    have c1: "accs = [] \<Longrightarrow> map_of (accountCache s') (Base58 L account) = None"
      using resolveFetch_facts(4) [OF f] None by simp
    have c2: "accs \<noteq> [] \<Longrightarrow> \<exists>t. map_of (accountCache s') (Base58 L account)
                      = Some \<lparr>created = t, accounts = accs\<rparr>"
      using resolveFetch_facts(5) [OF f] by (simp add: map_of_lru_Add)
    have c3: "(\<exists>e. resolveResp s (length (resolveReqs s') - 1) = Inl e) \<Longrightarrow> accs = []"
      using resolveFetch_facts(3) [OF f] by auto
    show ?thesis using resolveFetch_facts(2) [OF f] c1 c2 c3 by blast
  next
    case (Some entry)
    then have stale: "\<not> clock s (ticks s) - created entry < ttl"
      using nf by (simp add: cacheFresh_def)
    let ?sE = "s\<lparr>ticks := Suc (ticks s),
            accountCache := lru_Remove (Base58 L account) (accountCache s)\<rparr>"
    have f: "resolveFetch L account ?sE = ((accs, err), s')"
      using assms resolveTokenAccounts_stale [OF Some stale] by simp
    have c1: "accs = [] \<Longrightarrow> map_of (accountCache s') (Base58 L account) = None"
      using resolveFetch_facts(4) [OF f] by (simp add: map_of_lru_Remove)
    have c2: "accs \<noteq> [] \<Longrightarrow> \<exists>t. map_of (accountCache s') (Base58 L account)
                      = Some \<lparr>created = t, accounts = accs\<rparr>"
      using resolveFetch_facts(5) [OF f] by (simp add: map_of_lru_Add)
    have c3: "(\<exists>e. resolveResp s (length (resolveReqs s') - 1) = Inl e) \<Longrightarrow> accs = []"
      using resolveFetch_facts(3) [OF f] by auto
    have c4: "length (resolveReqs s) < length (resolveReqs s')"
      using resolveFetch_facts(2) [OF f] by simp
    show ?thesis using c1 c2 c3 c4 by blast
  qed
  then show ?thesis using e by blast
qed

text \<open>
  C7. An entry of the cache is served, with no network call, when the clock reads less
  than 5 minutes after its creation; at 5 minutes or more the network is queried, the
  result is what the network answered, and the cache then holds no entry for the account
  or a new one, created at the next reading of the clock, with the accounts fetched.
\<close>

theorem cache_ttl:
  assumes "map_of (accountCache s) (Base58 L account) = Some entry"
    and "resolveTokenAccounts L account s = ((accs, err), s')"
  shows "(clock s (ticks s) - created entry < ttl \<longrightarrow>
            accs = accounts entry \<and> err = None \<and> resolveReqs s' = resolveReqs s)
       \<and> (ttl \<le> clock s (ticks s) - created entry \<longrightarrow>
            length (resolveReqs s) < length (resolveReqs s')
            \<and> (case resolveResp s (length (resolveReqs s') - 1) of
                 Inl e \<Rightarrow> accs = [] | Inr a \<Rightarrow> accs = a)
            \<and> (if accs = [] then map_of (accountCache s') (Base58 L account) = None
               else map_of (accountCache s') (Base58 L account)
                      = Some \<lparr>created = clock s (Suc (ticks s)), accounts = accs\<rparr>))"
proof -
  have fresh: "accs = accounts entry \<and> err = None \<and> resolveReqs s' = resolveReqs s"
    if "clock s (ticks s) - created entry < ttl"
    using assms(2) resolveTokenAccounts_fresh [OF assms(1) that] by auto
  have stale: "length (resolveReqs s) < length (resolveReqs s')
            \<and> (case resolveResp s (length (resolveReqs s') - 1) of
                 Inl e \<Rightarrow> accs = [] | Inr a \<Rightarrow> accs = a)
            \<and> (if accs = [] then map_of (accountCache s') (Base58 L account) = None
               else map_of (accountCache s') (Base58 L account)
                      = Some \<lparr>created = clock s (Suc (ticks s)), accounts = accs\<rparr>)"
    if "ttl \<le> clock s (ticks s) - created entry"
  proof -
    have st: "\<not> clock s (ticks s) - created entry < ttl" using that by simp
    let ?sE = "s\<lparr>ticks := Suc (ticks s),
            accountCache := lru_Remove (Base58 L account) (accountCache s)\<rparr>"
    have f: "resolveFetch L account ?sE = ((accs, err), s')"
      using assms(2) resolveTokenAccounts_stale [OF assms(1) st] by simp
    have c1: "accs = [] \<Longrightarrow> map_of (accountCache s') (Base58 L account) = None"
      using resolveFetch_facts(4) [OF f] by (simp add: map_of_lru_Remove)
    have c2: "accs \<noteq> [] \<Longrightarrow> map_of (accountCache s') (Base58 L account)
                      = Some \<lparr>created = clock s (Suc (ticks s)), accounts = accs\<rparr>"
      using resolveFetch_facts(5) [OF f] by (simp add: map_of_lru_Add)
    have c3: "case resolveResp s (length (resolveReqs s') - 1) of
                 Inl e \<Rightarrow> accs = [] | Inr a \<Rightarrow> accs = a"
      using resolveFetch_facts(3) [OF f] by simp
    have c4: "length (resolveReqs s) < length (resolveReqs s')"
      using resolveFetch_facts(2) [OF f] by simp
    show ?thesis using c1 c2 c3 c4 by simp
  qed
  show ?thesis using fresh stale by blast
qed

theorem cache_ttl_witness:
  "(map_of (accountCache (cachedState (ttl - 1))) (Base58 testLib [2])
      = Some \<lparr>created = 0, accounts = [[5]]\<rparr>
    \<and> clock (cachedState (ttl - 1)) (ticks (cachedState (ttl - 1))) - 0 < ttl
    \<and> fst (fst (resolveTokenAccounts testLib [2] (cachedState (ttl - 1)))) = [[5]]
    \<and> resolveReqs (snd (resolveTokenAccounts testLib [2] (cachedState (ttl - 1)))) = [])
   \<and> (map_of (accountCache (cachedState ttl)) (Base58 testLib [2])
      = Some \<lparr>created = 0, accounts = [[5]]\<rparr>
    \<and> ttl \<le> clock (cachedState ttl) (ticks (cachedState ttl)) - 0
    \<and> 0 < length (resolveReqs (snd (resolveTokenAccounts testLib [2] (cachedState ttl)))))"
proof -
  have a1: "map_of (accountCache (cachedState (ttl - 1))) (Base58 testLib [2])
      = Some \<lparr>created = 0, accounts = [[5]]\<rparr>"
    by (simp add: cachedState_def)
  have b1: "clock (cachedState (ttl - 1)) (ticks (cachedState (ttl - 1))) - 0 < ttl"
    by (simp add: cachedState_def)
  have r1: "resolveReqs (cachedState (ttl - 1)) = []"
    by (simp add: cachedState_def testState_def)
  have c1: "fst (fst (resolveTokenAccounts testLib [2] (cachedState (ttl - 1)))) = [[5]]
    \<and> resolveReqs (snd (resolveTokenAccounts testLib [2] (cachedState (ttl - 1)))) = []"
    using cache_ttl [OF a1, of "fst (fst (resolveTokenAccounts testLib [2] (cachedState (ttl - 1))))"
        "snd (fst (resolveTokenAccounts testLib [2] (cachedState (ttl - 1))))"
        "snd (resolveTokenAccounts testLib [2] (cachedState (ttl - 1)))"] b1 r1
    by simp
  have a2: "map_of (accountCache (cachedState ttl)) (Base58 testLib [2])
      = Some \<lparr>created = 0, accounts = [[5]]\<rparr>"
    by (simp add: cachedState_def)
  have b2: "ttl \<le> clock (cachedState ttl) (ticks (cachedState ttl)) - 0"
    by (simp add: cachedState_def)
  have r2: "resolveReqs (cachedState ttl) = []"
    by (simp add: cachedState_def testState_def)
  have c2: "0 < length (resolveReqs (snd (resolveTokenAccounts testLib [2] (cachedState ttl))))"
    using cache_ttl [OF a2, of "fst (fst (resolveTokenAccounts testLib [2] (cachedState ttl)))"
        "snd (fst (resolveTokenAccounts testLib [2] (cachedState ttl)))"
        "snd (resolveTokenAccounts testLib [2] (cachedState ttl))"] b2 r2
    by simp
  show ?thesis using a1 b1 c1 a2 b2 c2 by blast
qed

theorem resolveTokenAccounts_nil_error_witness:
  "\<not> cacheFresh testLib [2] (testState\<lparr>resolveResp := (\<lambda>n. Inl (StatusError Unavailable []))\<rparr>)
   \<and> resolveResp (testState\<lparr>resolveResp := (\<lambda>n. Inl (StatusError Unavailable []))\<rparr>)
        (length (resolveReqs (snd (resolveTokenAccounts testLib [2]
           (testState\<lparr>resolveResp := (\<lambda>n. Inl (StatusError Unavailable []))\<rparr>)))) - 1)
      = Inl (StatusError Unavailable [])
   \<and> fst (resolveTokenAccounts testLib [2]
            (testState\<lparr>resolveResp := (\<lambda>n. Inl (StatusError Unavailable []))\<rparr>)) = ([], None)"
proof -
  let ?s = "testState\<lparr>resolveResp := (\<lambda>n. Inl (StatusError Unavailable []))\<rparr>"
  have a: "\<not> cacheFresh testLib [2] ?s"
    by (simp add: cacheFresh_def testState_def)
  have b: "resolveResp ?s (length (resolveReqs (snd (resolveTokenAccounts testLib [2] ?s))) - 1)
      = Inl (StatusError Unavailable [])"
    by simp
  have "snd (fst (resolveTokenAccounts testLib [2] ?s)) = None
        \<and> fst (fst (resolveTokenAccounts testLib [2] ?s)) = []"
    using resolveTokenAccounts_nil_error
      [of testLib "[2]" ?s "fst (fst (resolveTokenAccounts testLib [2] ?s))"
          "snd (fst (resolveTokenAccounts testLib [2] ?s))"
          "snd (resolveTokenAccounts testLib [2] ?s)"] a b
    by auto
  then have "fst (resolveTokenAccounts testLib [2] ?s) = ([], None)"
    by (metis prod.collapse)
  then show ?thesis using a b by blast
qed

subsection \<open>The sign-transaction webhook\<close>

lemma verifySignature_None_iff:
  "verifySignature W (rq_Header r) body secret = None \<longleftrightarrow> signatureMatches W r body secret"
  by (auto simp: verifySignature_def signatureMatches_def split: sum.splits)

lemma callAndRespond_not_401: "callAndRespond W f req resp \<noteq> 401"
proof (cases "f req resp")
  case (Pair e resp')
  show ?thesis
  proof (cases e)
    case None
    then show ?thesis
      using Pair by (simp add: callAndRespond_def split: option.split)
  next
    case (Some x)
    then show ?thesis using Pair by (simp add: callAndRespond_def)
  qed
qed

lemma signTransactionRespond_not_401:
  "signTransactionRespond W f r signReq kv \<noteq> 401"
  by (simp add: signTransactionRespond_def callAndRespond_not_401
        split: sum.split prod.split)

text \<open>
  C9, as amended. For a POST request whose body can be read: the handler answers 401
  exactly when its secret is not empty and the signature does not match; and when the
  secret is empty or the signature matches, a body that decodes to a request whose ledger
  version, 0 standing for 3, is not 2, 3 or 4 is answered with 400.
\<close>

theorem webhook_signature_and_version:
  assumes "rq_Method r = ''POST''" and "rq_Body r = Some body"
  shows "(SignTransactionHandler W secret f r = 401
            \<longleftrightarrow> secret \<noteq> [] \<and> \<not> signatureMatches W r body secret)
       \<and> ((secret = [] \<or> signatureMatches W r body secret) \<longrightarrow>
            (\<forall>signReq. jsonUnmarshal W body = Inr signReq \<longrightarrow>
               effectiveVersion signReq \<notin> {2, 3, 4} \<longrightarrow>
               SignTransactionHandler W secret f r = 400))"
proof -
  have a: "SignTransactionHandler W secret f r = 401"
    if "secret \<noteq> []" "\<not> signatureMatches W r body secret"
    using that assms by (simp add: SignTransactionHandler_def verifySignature_None_iff)
  have pass: "SignTransactionHandler W secret f r =
          (case jsonUnmarshal W body of
                  Inl e \<Rightarrow> 400
                | Inr signReq \<Rightarrow>
                    if effectiveVersion signReq < 2 \<or> effectiveVersion signReq > 4 then 400
                    else signTransactionRespond W f r signReq (effectiveVersion signReq))"
    if "secret = [] \<or> signatureMatches W r body secret"
    using that assms
    by (auto simp: SignTransactionHandler_def verifySignature_None_iff effectiveVersion_def
          Let_def split: sum.splits)
  have b: "SignTransactionHandler W secret f r \<noteq> 401"
    if "secret = [] \<or> signatureMatches W r body secret"
    using pass [OF that] signTransactionRespond_not_401 [of W f r]
    by (simp split: sum.split)
  have c: "SignTransactionHandler W secret f r = 400"
    if "secret = [] \<or> signatureMatches W r body secret"
      "jsonUnmarshal W body = Inr signReq" "effectiveVersion signReq \<notin> {2, 3, 4}"
    for signReq
  proof -
    have "effectiveVersion signReq < 2 \<or> effectiveVersion signReq > 4"
      using that(3) by auto
    then show ?thesis using pass [OF that(1)] that(2) by simp
  qed
  show ?thesis using a b c by blast
qed

theorem webhook_signature_and_version_witness:
  "rq_Method (unsignedPost emptyObject) = ''POST''
   \<and> rq_Body (unsignedPost emptyObject) = Some emptyObject
   \<and> [1] \<noteq> ([] :: bytes)
   \<and> \<not> signatureMatches testWlib (unsignedPost emptyObject) emptyObject [1]
   \<and> SignTransactionHandler testWlib [1] acceptAll (unsignedPost emptyObject) = 401
   \<and> signatureMatches testWlib (signedPost emptyObject) emptyObject [1]
   \<and> SignTransactionHandler testWlib [1] acceptAll (signedPost emptyObject) \<noteq> 401
   \<and> jsonUnmarshal testWlib version5Object
       = Inr \<lparr>sr_KinVersion = 5, sr_EnvelopeXDR = [], sr_SolanaTransaction = [],
              sr_InvoiceList = []\<rparr>
   \<and> effectiveVersion \<lparr>sr_KinVersion = 5, sr_EnvelopeXDR = [], sr_SolanaTransaction = [],
                        sr_InvoiceList = []\<rparr> \<notin> {2, 3, 4}
   \<and> signatureMatches testWlib (signedPost version5Object) version5Object [1]
   \<and> SignTransactionHandler testWlib [1] acceptAll (signedPost version5Object) = 400
   \<and> SignTransactionHandler testWlib [] acceptAll (unsignedPost version5Object) = 400"
proof -
  have m: "rq_Method (unsignedPost b) = ''POST''" "rq_Body (unsignedPost b) = Some b"
    "rq_Method (signedPost b) = ''POST''" "rq_Body (signedPost b) = Some b" for b
    by (simp_all add: unsignedPost_def signedPost_def)
  have n: "\<not> signatureMatches testWlib (unsignedPost emptyObject) emptyObject [1]"
    by (simp add: signatureMatches_def unsignedPost_def)
  have y: "signatureMatches testWlib (signedPost b) b [1]" for b
    by (simp add: signatureMatches_def signedPost_def testWlib_def zeroDigestText_def)
  have j: "jsonUnmarshal testWlib version5Object
       = Inr \<lparr>sr_KinVersion = 5, sr_EnvelopeXDR = [], sr_SolanaTransaction = [],
              sr_InvoiceList = []\<rparr>"
    by (simp add: testWlib_def version5Object_def emptyObject_def)
  have v: "effectiveVersion \<lparr>sr_KinVersion = 5, sr_EnvelopeXDR = [],
             sr_SolanaTransaction = [], sr_InvoiceList = []\<rparr> \<notin> {2, 3, 4}"
    by (simp add: effectiveVersion_def)
  have r1: "SignTransactionHandler testWlib [1] acceptAll (unsignedPost emptyObject) = 401"
    using webhook_signature_and_version
      [of "unsignedPost emptyObject" emptyObject testWlib "[1]" acceptAll] m n by simp
  have r2: "SignTransactionHandler testWlib [1] acceptAll (signedPost emptyObject) \<noteq> 401"
    using webhook_signature_and_version
      [of "signedPost emptyObject" emptyObject testWlib "[1]" acceptAll] m y by simp
  have r3: "SignTransactionHandler testWlib [1] acceptAll (signedPost version5Object) = 400"
    using webhook_signature_and_version
      [of "signedPost version5Object" version5Object testWlib "[1]" acceptAll] m y j v by blast
  have r4: "SignTransactionHandler testWlib [] acceptAll (unsignedPost version5Object) = 400"
    using webhook_signature_and_version
      [of "unsignedPost version5Object" version5Object testWlib "[]" acceptAll] m j v by blast
  show ?thesis using m n y j v r1 r2 r3 r4 by simp
qed

text \<open>
  The claim as it was stated fails in four ways. With an empty secret the handler checks
  no signature: a POST of the empty JSON object with no signature header is decoded, and
  is answered with 400 for its empty transaction, not with 401. With the secret \<open>[1]\<close>
  and no signature header, a GET is answered with 405 and a POST whose body cannot be
  read with 400, not with 401; and a POST of a request of version 5 is answered with 401,
  not with 400.
\<close>

theorem webhook_unsigned_request_counterexample:
  "\<not> signatureMatches testWlib (unsignedPost emptyObject) emptyObject []
   \<and> SignTransactionHandler testWlib [] acceptAll (unsignedPost emptyObject) = 400
   \<and> \<not> signatureMatches testWlib unsignedGet emptyObject [1]
   \<and> SignTransactionHandler testWlib [1] acceptAll unsignedGet = 405
   \<and> SignTransactionHandler testWlib [1] acceptAll unreadablePost = 400
   \<and> effectiveVersion \<lparr>sr_KinVersion = 5, sr_EnvelopeXDR = [], sr_SolanaTransaction = [],
                        sr_InvoiceList = []\<rparr> \<notin> {2, 3, 4}
   \<and> jsonUnmarshal testWlib version5Object
       = Inr \<lparr>sr_KinVersion = 5, sr_EnvelopeXDR = [], sr_SolanaTransaction = [],
              sr_InvoiceList = []\<rparr>
   \<and> SignTransactionHandler testWlib [1] acceptAll (unsignedPost version5Object) = 401"
  by (simp add: signatureMatches_def unsignedPost_def unsignedGet_def unreadablePost_def
        SignTransactionHandler_def signTransactionRespond_def decodeInvoiceList_def
        decodeTransaction_def callAndRespond_def testWlib_def verifySignature_def
        effectiveVersion_def emptyObject_def version5Object_def acceptAll_def)

subsection \<open>The nonce retry loops\<close>

lemma signAll_shape:
  "signAll L envelope ks = (e, envelope') \<Longrightarrow>
     (\<exists>sigs. envelope' = envelope\<lparr>Signatures := sigs\<rparr>)
     \<and> (e = None \<or> (\<exists>e0. e = Some (Wrap e0 ''failed to sign transaction envelope'')))"
proof (induction ks arbitrary: envelope)
  case Nil
  then have "envelope' = envelope\<lparr>Signatures := Signatures envelope\<rparr>" "e = None" by simp_all
  then show ?case by blast
next
  case (Cons k ks)
  show ?case
  proof (cases "signEnvelopeErr L envelope k")
    case None
    then have "signAll L (envelope\<lparr>Signatures := Signatures envelope @ [k]\<rparr>) ks = (e, envelope')"
      using Cons.prems by (simp add: SignEnvelope_def)
    then obtain sigs where
      "envelope' = envelope\<lparr>Signatures := Signatures envelope @ [k]\<rparr>\<lparr>Signatures := sigs\<rparr>"
      and e: "e = None \<or> (\<exists>e0. e = Some (Wrap e0 ''failed to sign transaction envelope''))"
      using Cons.IH by blast
    then have "envelope' = envelope\<lparr>Signatures := sigs\<rparr>" by simp
    then show ?thesis using e by blast
  next
    case (Some x)
    then have "envelope' = envelope\<lparr>Signatures := Signatures envelope\<rparr>"
      "e = Some (Wrap x ''failed to sign transaction envelope'')"
      using Cons.prems by (simp_all add: SignEnvelope_def)
    then show ?thesis by blast
  qed
qed

lemma xdrAction_cases:
  assumes "xdrAction L signers seq il (offset, r0, env, s) = (e, (offset', r', env', s'))"
  shows "(\<exists>sigs. env' = env\<lparr>SeqNum := seq + offset, Signatures := sigs\<rparr>)
     \<and> ((s' = s \<and> offset' = offset \<and> r' = r0 \<and> (\<exists>e0 m. e = Some (Wrap e0 m)))
        \<or> (s' = s\<lparr>stellarSubmits := stellarSubmits s @
                    [\<lparr>ss_Envelope = env', ss_InvoiceList = il\<rparr>]\<rparr>
           \<and> (r', e) = outcomeOf (stellarSubmitResp s (length (stellarSubmits s)))
           \<and> offset' = (case stellarSubmitResp s (length (stellarSubmits s)) of
                          Inl x \<Rightarrow> offset
                        | Inr res \<Rightarrow> if e = Some ErrBadNonce then offset + 1 else offset)))"
proof -
  obtain e1 env1 where sa: "signAll L (env\<lparr>SeqNum := seq + offset\<rparr>) signers = (e1, env1)"
    by (cases "signAll L (env\<lparr>SeqNum := seq + offset\<rparr>) signers")
  obtain sigs1 where env1: "env1 = env\<lparr>SeqNum := seq + offset, Signatures := sigs1\<rparr>"
    and e1: "e1 = None \<or> (\<exists>e0. e1 = Some (Wrap e0 ''failed to sign transaction envelope''))"
    using signAll_shape [OF sa] by auto
  show ?thesis
  proof (cases e1)
    case (Some x)
    then have "e = Some x" "offset' = offset" "r' = r0" "env' = env1" "s' = s"
      using assms sa by (auto simp add: xdrAction_def)
    then show ?thesis using env1 e1 Some by auto
  next
    case None
    let ?w = "(if length (whitelistKey s) > 0 \<and> whitelistKey s \<notin> set signers
               then SignEnvelope L env1 (whitelistKey s) else Inr env1)"
    show ?thesis
    proof (cases ?w)
      case (Inl x)
      then have "e = Some (Wrap x ''failed to sign transaction envelope'')"
        "offset' = offset" "r' = r0" "env' = env1" "s' = s"
        using assms sa None by (auto simp add: xdrAction_def)
      then show ?thesis using env1 by auto
    next
      case (Inr env2)
      have "\<exists>sigs. env2 = env1\<lparr>Signatures := sigs\<rparr>"
      proof (cases "length (whitelistKey s) > 0 \<and> whitelistKey s \<notin> set signers")
        case True
        then have "SignEnvelope L env1 (whitelistKey s) = Inr env2" using Inr by auto
        then have "env2 = env1\<lparr>Signatures := Signatures env1 @ [whitelistKey s]\<rparr>"
          by (simp add: SignEnvelope_def split: option.splits)
        then show ?thesis by blast
      next
        case False
        then have "env2 = env1" using Inr by auto
        then have "env2 = env1\<lparr>Signatures := Signatures env1\<rparr>" by simp
        then show ?thesis by blast
      qed
      then obtain sigs2 where env2: "env2 = env\<lparr>SeqNum := seq + offset, Signatures := sigs2\<rparr>"
        using env1 by auto
      show ?thesis
      proof (cases "marshalBinaryErr L env2")
        case (Some x)
        then have "e = Some (Wrap x ''failed to marshal transaction envelope'')"
          "offset' = offset" "r' = r0" "env' = env2" "s' = s"
          using assms sa None Inr by (auto simp add: xdrAction_def)
        then show ?thesis using env2 by auto
      next
        case mNone: None
        let ?s1 = "s\<lparr>stellarSubmits := stellarSubmits s @
                    [\<lparr>ss_Envelope = env2, ss_InvoiceList = il\<rparr>]\<rparr>"
        show ?thesis
        proof (cases "stellarSubmitResp s (length (stellarSubmits s))")
          case rInl: (Inl err)
          then have "e = Some err" "offset' = offset" "r' = zeroResult" "env' = env2" "s' = ?s1"
            using assms sa None Inr mNone
            by (auto simp add: xdrAction_def SubmitStellarTransaction_def)
          then show ?thesis using env2 rInl by (auto simp: outcomeOf_def)
        next
          case rInr: (Inr res)
          show ?thesis
          proof (cases "TxError (Errors res) = Some ErrBadNonce")
            case True
            then have "e = Some ErrBadNonce" "offset' = offset + 1" "r' = res" "env' = env2"
              "s' = ?s1"
              using assms sa None Inr mNone rInr
              by (auto simp add: xdrAction_def SubmitStellarTransaction_def)
            then show ?thesis using env2 rInr True by (auto simp: outcomeOf_def)
          next
            case False
            then have "e = None" "offset' = offset" "r' = res" "env' = env2" "s' = ?s1"
              using assms sa None Inr mNone rInr
              by (auto simp add: xdrAction_def SubmitStellarTransaction_def)
            then show ?thesis using env2 rInr False by (auto simp: outcomeOf_def)
          qed
        qed
      qed
    qed
  qed
qed

lemma Retry_None:
  "action l = (None, l') \<Longrightarrow> Retry action limit errs i l = ((i, None), l')"
  by (subst Retry.simps) simp

lemma Retry_stop:
  "action l = (Some e, l') \<Longrightarrow> \<not> (i < limit \<and> e \<in> set errs) \<Longrightarrow>
     Retry action limit errs i l = ((i, Some e), l')"
  by (subst Retry.simps) auto

lemma Retry_again:
  "action l = (Some e, l') \<Longrightarrow> i < limit \<Longrightarrow> e \<in> set errs \<Longrightarrow>
     Retry action limit errs i l = Retry action limit errs (Suc i) l'"
  by (subst Retry.simps) simp

lemma xdr_loop:
  "Retry (xdrAction L signers seq il) limit [ErrBadNonce] i (offset, r0, env, s)
     = ((n, err), (offset', r', env', s'))
   \<Longrightarrow> \<exists>new. xdrLoopPost limit i seq il offset env s n err r' s' new"
proof (induction "limit - i" arbitrary: i offset r0 env s)
  case 0
  obtain e o1 r1 e1 s1 where
    a: "xdrAction L signers seq il (offset, r0, env, s) = (e, (o1, r1, e1, s1))"
    by (metis surj_pair)
  note c = xdrAction_cases [OF a]
  have fin: "n = i \<and> err = e \<and> r' = r1 \<and> s' = s1"
  proof (cases e)
    case None
    then show ?thesis using "0.prems" Retry_None [where action = "xdrAction L signers seq il" and l = "(offset, r0, env, s)", OF a [unfolded None]] by simp
  next
    case (Some x)
    have "\<not> (i < limit \<and> x \<in> set [ErrBadNonce])" using "0.hyps" by simp
    then show ?thesis using "0.prems" Retry_stop [where action = "xdrAction L signers seq il" and l = "(offset, r0, env, s)", OF a [unfolded Some]] Some by simp
  qed
  have nb: "err = Some ErrBadNonce \<longrightarrow> limit \<le> n" using "0.hyps" fin by simp
  from c fin show ?case
  proof (elim conjE disjE)
    assume "s1 = s" "\<exists>e0 m. e = Some (Wrap e0 m)"
    then have "xdrLoopPost limit i seq il offset env s n err r' s' []"
      using fin by (auto simp: xdrLoopPost_def)
    then show ?thesis by blast
  next
    assume s1: "s1 = s\<lparr>stellarSubmits := stellarSubmits s @
                    [\<lparr>ss_Envelope = e1, ss_InvoiceList = il\<rparr>]\<rparr>"
      and oc: "(r1, e) = outcomeOf (stellarSubmitResp s (length (stellarSubmits s)))"
      and e1: "\<exists>sigs. e1 = env\<lparr>SeqNum := seq + offset, Signatures := sigs\<rparr>"
    have "xdrLoopPost limit i seq il offset env s n err r' s'
            [\<lparr>ss_Envelope = e1, ss_InvoiceList = il\<rparr>]"
      unfolding xdrLoopPost_def using fin s1 oc e1 nb by auto
    then show ?thesis by blast
  qed
next
  case (Suc k)
  then have lt: "i < limit" by simp
  obtain e o1 r1 e1 s1 where
    a: "xdrAction L signers seq il (offset, r0, env, s) = (e, (o1, r1, e1, s1))"
    by (metis surj_pair)
  note c = xdrAction_cases [OF a]
  show ?case
  proof (cases "e = Some ErrBadNonce")
    case False
    have fin: "n = i \<and> err = e \<and> r' = r1 \<and> s' = s1"
    proof (cases e)
      case None
      then show ?thesis using Suc.prems Retry_None [where action = "xdrAction L signers seq il" and l = "(offset, r0, env, s)", OF a [unfolded None]] by simp
    next
      case (Some x)
      have "\<not> (i < limit \<and> x \<in> set [ErrBadNonce])" using False Some by simp
      then show ?thesis using Suc.prems Retry_stop [where action = "xdrAction L signers seq il" and l = "(offset, r0, env, s)", OF a [unfolded Some]] Some by simp
    qed
    from c fin show ?thesis
    proof (elim conjE disjE)
      assume "s1 = s" "\<exists>e0 m. e = Some (Wrap e0 m)"
      then have "xdrLoopPost limit i seq il offset env s n err r' s' []"
        using fin by (auto simp: xdrLoopPost_def)
      then show ?thesis by blast
    next
      assume s1: "s1 = s\<lparr>stellarSubmits := stellarSubmits s @
                      [\<lparr>ss_Envelope = e1, ss_InvoiceList = il\<rparr>]\<rparr>"
        and oc: "(r1, e) = outcomeOf (stellarSubmitResp s (length (stellarSubmits s)))"
        and e1: "\<exists>sigs. e1 = env\<lparr>SeqNum := seq + offset, Signatures := sigs\<rparr>"
      have "xdrLoopPost limit i seq il offset env s n err r' s'
              [\<lparr>ss_Envelope = e1, ss_InvoiceList = il\<rparr>]"
        unfolding xdrLoopPost_def using fin s1 oc e1 False by auto
      then show ?thesis by blast
    qed
  next
    case True
    have rec: "Retry (xdrAction L signers seq il) limit [ErrBadNonce] (Suc i) (o1, r1, e1, s1)
                 = ((n, err), (offset', r', env', s'))"
      using Suc.prems Retry_again [where action = "xdrAction L signers seq il" and l = "(offset, r0, env, s)", OF a [unfolded True] lt] by simp
    have k: "k = limit - Suc i" using Suc.hyps(2) by simp
    obtain new where post: "xdrLoopPost limit (Suc i) seq il o1 e1 s1 n err r' s' new"
      using Suc.hyps(1) [OF k rec] by blast
    have nWrap: "\<not> (\<exists>e0 m. e = Some (Wrap e0 m))" using True by simp
    have s1: "s1 = s\<lparr>stellarSubmits := stellarSubmits s @
                      [\<lparr>ss_Envelope = e1, ss_InvoiceList = il\<rparr>]\<rparr>"
      and oc: "(r1, e) = outcomeOf (stellarSubmitResp s (length (stellarSubmits s)))"
      and o1: "o1 = (case stellarSubmitResp s (length (stellarSubmits s)) of
                          Inl x \<Rightarrow> offset
                        | Inr res \<Rightarrow> if e = Some ErrBadNonce then offset + 1 else offset)"
      and e1: "\<exists>sigs. e1 = env\<lparr>SeqNum := seq + offset, Signatures := sigs\<rparr>"
      using c nWrap by auto
    have bounds: "Suc i \<le> n" using Retry_attempts [OF rec] by simp
    let ?x = "\<lparr>ss_Envelope = e1, ss_InvoiceList = il\<rparr>"
    have p1: "s' = s\<lparr>stellarSubmits := stellarSubmits s @ (?x # new)\<rparr>"
      using post s1 by (simp add: xdrLoopPost_def)
    have ln: "length new \<le> Suc n - Suc i"
      using post unfolding xdrLoopPost_def by blast
    have p2: "length (?x # new) \<le> Suc n - i"
      using ln bounds by simp
    have sq1: "SeqNum e1 = seq + offset" using e1 by auto
    have badk: "snd (outcomeOf (stellarSubmitResp s (length (stellarSubmits s))))
                  = Some ErrBadNonce"
      using oc True by (metis snd_conv)
    have nxt: "seq + o1 = (case stellarSubmitResp s (length (stellarSubmits s)) of
                            Inl e \<Rightarrow> seq + offset | Inr res \<Rightarrow> seq + offset + 1)"
      using o1 True by (simp split: sum.splits)
    have ch: "seqChain (stellarSubmitResp s) (Suc (length (stellarSubmits s))) (seq + o1) new"
      using post s1 by (simp add: xdrLoopPost_def)
    have p3: "seqChain (stellarSubmitResp s) (length (stellarSubmits s)) (seq + offset)
                (?x # new)"
      using sq1 badk ch nxt by simp
    have p4: "\<forall>x\<in>set (?x # new).
                (\<exists>sq sigs. ss_Envelope x = env\<lparr>SeqNum := sq, Signatures := sigs\<rparr>)
                \<and> ss_InvoiceList x = il"
    proof -
      obtain sigs0 where e1': "e1 = env\<lparr>SeqNum := seq + offset, Signatures := sigs0\<rparr>"
        using e1 by blast
      have "\<forall>x\<in>set new.
                (\<exists>sq sigs. ss_Envelope x = e1\<lparr>SeqNum := sq, Signatures := sigs\<rparr>)
                \<and> ss_InvoiceList x = il"
        using post by (simp add: xdrLoopPost_def)
      then have "\<forall>x\<in>set new.
                (\<exists>sq sigs. ss_Envelope x = env\<lparr>SeqNum := sq, Signatures := sigs\<rparr>)
                \<and> ss_InvoiceList x = il"
        using e1' by simp
      then show ?thesis using e1' by auto
    qed
    have p5: "(err = None \<or> err = Some ErrBadNonce) \<longrightarrow>
            ?x # new \<noteq> [] \<and> length (?x # new) = Suc n - i
            \<and> (r', err) = outcomeOf (stellarSubmitResp s
                                       (length (stellarSubmits s) + length (?x # new) - 1))"
    proof
      assume h: "err = None \<or> err = Some ErrBadNonce"
      have q: "new \<noteq> []" "length new = Suc n - Suc i"
        "(r', err) = outcomeOf (stellarSubmitResp s1
                                       (length (stellarSubmits s1) + length new - 1))"
        using post h unfolding xdrLoopPost_def by blast+
      have "length (stellarSubmits s1) + length new - 1
              = length (stellarSubmits s) + length (?x # new) - 1"
        using s1 q(1) by simp
      moreover have "stellarSubmitResp s1 = stellarSubmitResp s" using s1 by simp
      ultimately show "?x # new \<noteq> [] \<and> length (?x # new) = Suc n - i
            \<and> (r', err) = outcomeOf (stellarSubmitResp s
                                       (length (stellarSubmits s) + length (?x # new) - 1))"
        using q bounds by simp
    qed
    have p6: "err = Some ErrBadNonce \<longrightarrow> limit \<le> n"
      using post by (simp add: xdrLoopPost_def)
    have "xdrLoopPost limit i seq il offset env s n err r' s' (?x # new)"
      unfolding xdrLoopPost_def using p1 p2 p3 p4 p5 p6 by blast
    then show ?thesis by blast
  qed
qed

lemma txAction_cases:
  assumes "txAction L keys cm il d (r0, tx, s) = (e, (r', tx', s'))"
  shows "(\<exists>bh sigs. tx' = tx\<lparr>tx_Blockhash := bh, tx_Signatures := sigs\<rparr>)
     \<and> ((s' = s\<lparr>blockhashReqs := Suc (blockhashReqs s)\<rparr> \<and> r' = r0 \<and> e \<noteq> None)
        \<or> (s' = s\<lparr>blockhashReqs := Suc (blockhashReqs s),
                  solanaSubmits := solanaSubmits s @
                    [\<lparr>so_Transaction = tx', so_InvoiceList = il, so_Commitment = cm,
                      so_DedupeID = d\<rparr>]\<rparr>
           \<and> (r', e) = outcomeOf (solanaSubmitResp s (length (solanaSubmits s)))))"
proof (cases "blockhashResp s (blockhashReqs s)")
  case (Inl err)
  then have f: "e = Some err" "r' = r0" "tx' = tx"
    "s' = s\<lparr>blockhashReqs := Suc (blockhashReqs s)\<rparr>"
    using assms by (auto simp add: txAction_def GetRecentBlockhash_def)
  have "\<exists>bh sigs. tx' = tx\<lparr>tx_Blockhash := bh, tx_Signatures := sigs\<rparr>"
    by (rule exI [of _ "tx_Blockhash tx"], rule exI [of _ "tx_Signatures tx"])
      (simp add: f(3))
  then show ?thesis using f by simp
next
  case (Inr bh)
  show ?thesis
  proof (cases "txSignErr L (tx\<lparr>tx_Blockhash := bh\<rparr>) keys")
    case (Some x)
    then have f: "e = Some x" "r' = r0" "tx' = tx\<lparr>tx_Blockhash := bh\<rparr>"
      "s' = s\<lparr>blockhashReqs := Suc (blockhashReqs s)\<rparr>"
      using assms Inr by (auto simp add: txAction_def GetRecentBlockhash_def)
    have "\<exists>bh sigs. tx' = tx\<lparr>tx_Blockhash := bh, tx_Signatures := sigs\<rparr>"
      by (rule exI [of _ bh], rule exI [of _ "tx_Signatures tx"]) (simp add: f(3))
    then show ?thesis using f by simp
  next
    case None
    let ?tx2 = "tx\<lparr>tx_Blockhash := bh, tx_Signatures := keys\<rparr>"
    let ?s1 = "s\<lparr>blockhashReqs := Suc (blockhashReqs s)\<rparr>"
    let ?s2 = "s\<lparr>blockhashReqs := Suc (blockhashReqs s),
                  solanaSubmits := solanaSubmits s @
                    [\<lparr>so_Transaction = ?tx2, so_InvoiceList = il, so_Commitment = cm,
                      so_DedupeID = d\<rparr>]\<rparr>"
    have sub: "SubmitSolanaTransaction ?tx2 il cm d ?s1
                 = (solanaSubmitResp s (length (solanaSubmits s)), ?s2)"
      by (simp add: SubmitSolanaTransaction_def)
    have act: "txAction L keys cm il d (r0, tx, s) =
       (case (solanaSubmitResp s (length (solanaSubmits s)), ?s2) of
          (Inl err, s2) \<Rightarrow> (Some err, (zeroResult, ?tx2, s2))
        | (Inr res, s2) \<Rightarrow>
            (if TxError (Errors res) = Some ErrBadNonce then Some ErrBadNonce else None,
             (res, ?tx2, s2)))"
      using Inr None sub by (simp add: txAction_def GetRecentBlockhash_def)
    have "tx' = ?tx2 \<and> s' = ?s2
          \<and> (r', e) = outcomeOf (solanaSubmitResp s (length (solanaSubmits s)))"
      using assms unfolding act
      by (cases "solanaSubmitResp s (length (solanaSubmits s))") (auto simp: outcomeOf_def)
    then show ?thesis by blast
  qed
qed

lemma tx_loop:
  "Retry (txAction L keys cm il d) limit [ErrBadNonce] i (r0, tx, s)
     = ((n, err), (r', tx', s'))
   \<Longrightarrow> \<exists>new. txLoopPost limit i cm il d r0 tx s n err r' s' new"
proof (induction "limit - i" arbitrary: i r0 tx s)
  case 0
  obtain e r1 t1 s1 where
    a: "txAction L keys cm il d (r0, tx, s) = (e, (r1, t1, s1))"
    by (metis surj_pair)
  note c = txAction_cases [OF a]
  have fin: "n = i \<and> err = e \<and> r' = r1 \<and> s' = s1"
  proof (cases e)
    case None
    then show ?thesis
      using "0.prems" Retry_None [where action = "txAction L keys cm il d"
          and l = "(r0, tx, s)", OF a [unfolded None]] by simp
  next
    case (Some x)
    have "\<not> (i < limit \<and> x \<in> set [ErrBadNonce])" using "0.hyps" by simp
    then show ?thesis
      using "0.prems" Retry_stop [where action = "txAction L keys cm il d"
          and l = "(r0, tx, s)", OF a [unfolded Some]] Some by simp
  qed
  have nb: "err = Some ErrBadNonce \<longrightarrow> limit \<le> n" using "0.hyps" fin by simp
  from c fin show ?case
  proof (elim conjE disjE)
    assume "s1 = s\<lparr>blockhashReqs := Suc (blockhashReqs s)\<rparr>" "r1 = r0" "e \<noteq> None"
    then have "txLoopPost limit i cm il d r0 tx s n err r' s' []"
      using fin nb by (auto simp: txLoopPost_def)
    then show ?thesis by blast
  next
    assume s1: "s1 = s\<lparr>blockhashReqs := Suc (blockhashReqs s),
                  solanaSubmits := solanaSubmits s @
                    [\<lparr>so_Transaction = t1, so_InvoiceList = il, so_Commitment = cm,
                      so_DedupeID = d\<rparr>]\<rparr>"
      and oc: "(r1, e) = outcomeOf (solanaSubmitResp s (length (solanaSubmits s)))"
      and t1: "\<exists>bh sigs. t1 = tx\<lparr>tx_Blockhash := bh, tx_Signatures := sigs\<rparr>"
    have "txLoopPost limit i cm il d r0 tx s n err r' s'
            [\<lparr>so_Transaction = t1, so_InvoiceList = il, so_Commitment = cm,
                      so_DedupeID = d\<rparr>]"
      unfolding txLoopPost_def using fin s1 oc t1 nb by auto
    then show ?thesis by blast
  qed
next
  case (Suc k)
  then have lt: "i < limit" by simp
  obtain e r1 t1 s1 where
    a: "txAction L keys cm il d (r0, tx, s) = (e, (r1, t1, s1))"
    by (metis surj_pair)
  note c = txAction_cases [OF a]
  show ?case
  proof (cases "e = Some ErrBadNonce")
    case False
    have fin: "n = i \<and> err = e \<and> r' = r1 \<and> s' = s1"
    proof (cases e)
      case None
      then show ?thesis
        using Suc.prems Retry_None [where action = "txAction L keys cm il d"
            and l = "(r0, tx, s)", OF a [unfolded None]] by simp
    next
      case (Some x)
      have "\<not> (i < limit \<and> x \<in> set [ErrBadNonce])" using False Some by simp
      then show ?thesis
        using Suc.prems Retry_stop [where action = "txAction L keys cm il d"
            and l = "(r0, tx, s)", OF a [unfolded Some]] Some by simp
    qed
    from c fin show ?thesis
    proof (elim conjE disjE)
      assume "s1 = s\<lparr>blockhashReqs := Suc (blockhashReqs s)\<rparr>" "r1 = r0" "e \<noteq> None"
      then have "txLoopPost limit i cm il d r0 tx s n err r' s' []"
        using fin False by (auto simp: txLoopPost_def)
      then show ?thesis by blast
    next
      assume s1: "s1 = s\<lparr>blockhashReqs := Suc (blockhashReqs s),
                    solanaSubmits := solanaSubmits s @
                      [\<lparr>so_Transaction = t1, so_InvoiceList = il, so_Commitment = cm,
                        so_DedupeID = d\<rparr>]\<rparr>"
        and oc: "(r1, e) = outcomeOf (solanaSubmitResp s (length (solanaSubmits s)))"
        and t1: "\<exists>bh sigs. t1 = tx\<lparr>tx_Blockhash := bh, tx_Signatures := sigs\<rparr>"
      have "txLoopPost limit i cm il d r0 tx s n err r' s'
              [\<lparr>so_Transaction = t1, so_InvoiceList = il, so_Commitment = cm,
                        so_DedupeID = d\<rparr>]"
        unfolding txLoopPost_def using fin s1 oc t1 False by auto
      then show ?thesis by blast
    qed
  next
    case True
    have rec: "Retry (txAction L keys cm il d) limit [ErrBadNonce] (Suc i) (r1, t1, s1)
                 = ((n, err), (r', tx', s'))"
      using Suc.prems Retry_again [where action = "txAction L keys cm il d"
          and l = "(r0, tx, s)", OF a [unfolded True] lt] by simp
    have k: "k = limit - Suc i" using Suc.hyps(2) by simp
    obtain new where post: "txLoopPost limit (Suc i) cm il d r1 t1 s1 n err r' s' new"
      using Suc.hyps(1) [OF k rec] by blast
    have bounds: "Suc i \<le> n" using Retry_attempts [OF rec] by simp
    obtain bh0 sigs0 where t1: "t1 = tx\<lparr>tx_Blockhash := bh0, tx_Signatures := sigs0\<rparr>"
      using c by blast
    have all1: "\<forall>x\<in>set new.
            (\<exists>bh sigs. so_Transaction x = tx\<lparr>tx_Blockhash := bh, tx_Signatures := sigs\<rparr>)
            \<and> so_InvoiceList x = il \<and> so_Commitment x = cm \<and> so_DedupeID x = d"
    proof -
      have "\<forall>x\<in>set new.
            (\<exists>bh sigs. so_Transaction x = t1\<lparr>tx_Blockhash := bh, tx_Signatures := sigs\<rparr>)
            \<and> so_InvoiceList x = il \<and> so_Commitment x = cm \<and> so_DedupeID x = d"
        using post unfolding txLoopPost_def by blast
      then show ?thesis using t1 by simp
    qed
    have ln: "length new \<le> Suc n - Suc i"
      using post unfolding txLoopPost_def by blast
    have s'1: "s' = s1\<lparr>blockhashReqs := blockhashReqs s1 + (Suc n - Suc i),
             solanaSubmits := solanaSubmits s1 @ new\<rparr>"
      using post unfolding txLoopPost_def by blast
    have e6: "err = Some ErrBadNonce \<longrightarrow> limit \<le> n"
      using post unfolding txLoopPost_def by blast
    have e4: "err = None \<longrightarrow>
            new \<noteq> []
            \<and> (r', err) = outcomeOf (solanaSubmitResp s1
                                       (length (solanaSubmits s1) + length new - 1))"
      using post unfolding txLoopPost_def by blast
    have e5: "new = [] \<longrightarrow> r' = r1"
      using post unfolding txLoopPost_def by blast
    have cnt: "Suc (Suc n - Suc i) = Suc n - i" using bounds by simp
    from c show ?thesis
    proof (elim conjE disjE)
      assume s1: "s1 = s\<lparr>blockhashReqs := Suc (blockhashReqs s)\<rparr>" and r1: "r1 = r0"
      have p1: "s' = s\<lparr>blockhashReqs := blockhashReqs s + (Suc n - i),
             solanaSubmits := solanaSubmits s @ new\<rparr>"
        using s'1 s1 cnt by simp
      have p4: "err = None \<longrightarrow>
            new \<noteq> []
            \<and> (r', err) = outcomeOf (solanaSubmitResp s
                                       (length (solanaSubmits s) + length new - 1))"
        using e4 s1 by simp
      have "txLoopPost limit i cm il d r0 tx s n err r' s' new"
        unfolding txLoopPost_def using p1 ln all1 p4 e5 r1 e6 cnt by auto
      then show ?thesis by blast
    next
      let ?x = "\<lparr>so_Transaction = t1, so_InvoiceList = il, so_Commitment = cm,
                        so_DedupeID = d\<rparr>"
      assume s1: "s1 = s\<lparr>blockhashReqs := Suc (blockhashReqs s),
                    solanaSubmits := solanaSubmits s @ [?x]\<rparr>"
        and oc: "(r1, e) = outcomeOf (solanaSubmitResp s (length (solanaSubmits s)))"
      have p1: "s' = s\<lparr>blockhashReqs := blockhashReqs s + (Suc n - i),
             solanaSubmits := solanaSubmits s @ (?x # new)\<rparr>"
        using s'1 s1 cnt by simp
      have p2: "length (?x # new) \<le> Suc n - i" using ln bounds by simp
      have p3: "\<forall>x\<in>set (?x # new).
            (\<exists>bh sigs. so_Transaction x = tx\<lparr>tx_Blockhash := bh, tx_Signatures := sigs\<rparr>)
            \<and> so_InvoiceList x = il \<and> so_Commitment x = cm \<and> so_DedupeID x = d"
        using all1 t1 by auto
      have p4: "err = None \<longrightarrow>
            ?x # new \<noteq> []
            \<and> (r', err) = outcomeOf (solanaSubmitResp s
                                       (length (solanaSubmits s) + length (?x # new) - 1))"
      proof
        assume h: "err = None"
        have q: "new \<noteq> []"
          "(r', err) = outcomeOf (solanaSubmitResp s1
                                       (length (solanaSubmits s1) + length new - 1))"
          using e4 h by blast+
        have "length (solanaSubmits s1) + length new - 1
              = length (solanaSubmits s) + length (?x # new) - 1"
          using s1 q(1) by simp
        moreover have "solanaSubmitResp s1 = solanaSubmitResp s" using s1 by simp
        ultimately show "?x # new \<noteq> []
            \<and> (r', err) = outcomeOf (solanaSubmitResp s
                                       (length (solanaSubmits s) + length (?x # new) - 1))"
          using q by simp
      qed
      have "txLoopPost limit i cm il d r0 tx s n err r' s' (?x # new)"
        unfolding txLoopPost_def using p1 p2 p3 p4 e6 by blast
      then show ?thesis by blast
    qed
  qed
qed

lemma signAndSubmitXDR_fetch_failed:
  assumes "accountInfoResp s (length (accountInfoReqs s)) = Inl e"
  shows "signAndSubmitXDR L (k # ks) envelope il s
           = ((zeroResult, Some e), s\<lparr>accountInfoReqs := accountInfoReqs s @ [Public L k]\<rparr>)"
  using assms by (simp add: signAndSubmitXDR_def GetStellarAccountInfo_def)

lemma signAndSubmitXDR_loop:
  assumes "accountInfoResp s (length (accountInfoReqs s)) = Inr info"
    and "signAndSubmitXDR L (k # ks) envelope il s = ((result, err), s')"
  shows "\<exists>new n. xdrLoopPost (maxSequenceRetries s) 1 (SequenceNumber info) il 1 envelope
                   (s\<lparr>accountInfoReqs := accountInfoReqs s @ [Public L k]\<rparr>)
                   n err result s' new
                 \<and> 1 \<le> n \<and> (n = 1 \<or> n \<le> maxSequenceRetries s)"
proof -
  let ?s1 = "s\<lparr>accountInfoReqs := accountInfoReqs s @ [Public L k]\<rparr>"
  obtain n e o1 r1 e1 s2 where
    r: "Retry (xdrAction L (k # ks) (SequenceNumber info) il) (maxSequenceRetries s)
          [ErrBadNonce] 1 (1, zeroResult, envelope, ?s1) = ((n, e), (o1, r1, e1, s2))"
    by (metis surj_pair)
  have "signAndSubmitXDR L (k # ks) envelope il s = ((r1, e), s2)"
    using assms(1) r by (simp add: signAndSubmitXDR_def GetStellarAccountInfo_def)
  then have eq: "r1 = result" "e = err" "s2 = s'" using assms(2) by simp_all
  obtain new where "xdrLoopPost (maxSequenceRetries s) 1 (SequenceNumber info) il 1 envelope
                   ?s1 n e r1 s2 new"
    using xdr_loop [OF r] by blast
  then show ?thesis using Retry_attempts [OF r] eq by blast
qed

lemma signAndSubmitTx_loop:
  assumes "signAndSubmitTx L keys tx cm il d s = ((result, err), s')"
  shows "\<exists>new n. txLoopPost (maxSequenceRetries s) 1 cm il d zeroResult tx s n err result s' new
                 \<and> 1 \<le> n \<and> (n = 1 \<or> n \<le> maxSequenceRetries s)"
proof -
  obtain n e r1 t1 s2 where
    r: "Retry (txAction L keys cm il d) (maxSequenceRetries s) [ErrBadNonce] 1
          (zeroResult, tx, s) = ((n, e), (r1, t1, s2))"
    by (metis surj_pair)
  have "signAndSubmitTx L keys tx cm il d s = ((r1, e), s2)"
    using r by (simp add: signAndSubmitTx_def)
  then have eq: "r1 = result" "e = err" "s2 = s'" using assms by simp_all
  obtain new where "txLoopPost (maxSequenceRetries s) 1 cm il d zeroResult tx s n e r1 s2 new"
    using tx_loop [OF r] by blast
  then show ?thesis using Retry_attempts [OF r] eq by blast
qed






subsection \<open>Payments: memo, resolution and version upgrade\<close>

lemma callFrame_refl: "callFrame P Q 0 s s"
  by (simp add: callFrame_def)

lemma callFrame_trans:
  assumes "callFrame P Q m1 s s1" "callFrame P Q m2 s1 s2"
  shows "callFrame P Q (m1 + m2) s s2"
proof -
  obtain a1 where a1: "stellarSubmits s1 = stellarSubmits s @ a1" "list_all P a1"
    using assms(1) unfolding callFrame_def by blast
  obtain a2 where a2: "stellarSubmits s2 = stellarSubmits s1 @ a2" "list_all P a2"
    using assms(2) unfolding callFrame_def by blast
  obtain b1 where b1: "solanaSubmits s1 = solanaSubmits s @ b1" "list_all Q b1"
    using assms(1) unfolding callFrame_def by blast
  obtain b2 where b2: "solanaSubmits s2 = solanaSubmits s1 @ b2" "list_all Q b2"
    using assms(2) unfolding callFrame_def by blast
  have A: "stellarSubmits s2 = stellarSubmits s @ (a1 @ a2) \<and> list_all P (a1 @ a2)"
    using a1 a2 by simp
  have B: "solanaSubmits s2 = solanaSubmits s @ (b1 @ b2) \<and> list_all Q (b1 @ b2)"
    using b1 b2 by simp
  have C: "appIndex s2 = appIndex s \<and> maxSequenceRetries s2 = maxSequenceRetries s
      \<and> kinVersion s2 = kinVersion s \<and> internal_kinVersion s2 = internal_kinVersion s
      \<and> earnsMem s2 = earnsMem s
      \<and> blockhashReqs s \<le> blockhashReqs s2 \<and> blockhashReqs s2 \<le> blockhashReqs s + (m1 + m2)"
    using assms unfolding callFrame_def by auto
  show ?thesis unfolding callFrame_def using A B C by blast
qed

lemma callFrame_mono:
  "callFrame P Q m s s' \<Longrightarrow> m \<le> m' \<Longrightarrow> callFrame P Q m' s s'"
  unfolding callFrame_def by auto

lemma callFrame_other_fields:
  assumes "s' = s\<lparr>resolveReqs := a, ticks := b, accountCache := c\<rparr>"
  shows "callFrame P Q 0 s s'"
  by (subst assms)+ (simp add: callFrame_def)

lemma resolveTokenAccounts_callFrame:
  assumes "resolveTokenAccounts L account s = ((accs, err), s')"
  shows "callFrame P Q 0 s s'"
  using callFrame_other_fields [OF resolveTokenAccounts_frame(2) [OF assms]] .

lemma resolveFirst_callFrame:
  assumes "resolveFirst L account s = (r, s')"
  shows "callFrame P Q 0 s s' \<and> (\<exists>x. r = Inr x)"
proof -
  obtain accs err s1 where t: "resolveTokenAccounts L account s = ((accs, err), s1)"
    by (metis surj_pair)
  have e: "err = None" using resolveTokenAccounts_frame(1) [OF t] .
  have "s' = s1 \<and> (\<exists>x. r = Inr x)"
    using assms t e by (cases accs) (auto simp: resolveFirst_def)
  then show ?thesis using resolveTokenAccounts_callFrame [OF t] by simp
qed

lemma GetServiceConfig_callFrame:
  "GetServiceConfig s = (r, s') \<Longrightarrow> callFrame P Q 0 s s'"
  by (auto simp: GetServiceConfig_def callFrame_def)

lemma signAndSubmitTx_callFrame:
  assumes "signAndSubmitTx L keys tx cm il d s = ((result, err), s')"
    and "\<And>bh sigs. Q \<lparr>so_Transaction = tx\<lparr>tx_Blockhash := bh, tx_Signatures := sigs\<rparr>,
                        so_InvoiceList = il, so_Commitment = cm, so_DedupeID = d\<rparr>"
  shows "callFrame P Q (max 1 (maxSequenceRetries s)) s s'"
proof -
  obtain new n where
    post: "txLoopPost (maxSequenceRetries s) 1 cm il d zeroResult tx s n err result s' new"
    and n: "1 \<le> n" "n = 1 \<or> n \<le> maxSequenceRetries s"
    using signAndSubmitTx_loop [OF assms(1)] by blast
  have s': "s' = s\<lparr>blockhashReqs := blockhashReqs s + (Suc n - 1),
             solanaSubmits := solanaSubmits s @ new\<rparr>"
    using post unfolding txLoopPost_def by blast
  have all: "\<forall>x\<in>set new.
            (\<exists>bh sigs. so_Transaction x = tx\<lparr>tx_Blockhash := bh, tx_Signatures := sigs\<rparr>)
            \<and> so_InvoiceList x = il \<and> so_Commitment x = cm \<and> so_DedupeID x = d"
    using post unfolding txLoopPost_def by blast
  have "Q x" if xin: "x \<in> set new" for x
  proof -
    obtain bh sigs where "so_Transaction x = tx\<lparr>tx_Blockhash := bh, tx_Signatures := sigs\<rparr>"
      "so_InvoiceList x = il" "so_Commitment x = cm" "so_DedupeID x = d"
      using all xin by blast
    then have "x = \<lparr>so_Transaction = tx\<lparr>tx_Blockhash := bh, tx_Signatures := sigs\<rparr>,
                        so_InvoiceList = il, so_Commitment = cm, so_DedupeID = d\<rparr>"
      by (cases x) simp
    then show ?thesis using assms(2) by simp
  qed
  then have q: "list_all Q new" by (simp add: list_all_iff)
  have f: "appIndex s' = appIndex s" "maxSequenceRetries s' = maxSequenceRetries s"
    "kinVersion s' = kinVersion s" "internal_kinVersion s' = internal_kinVersion s"
    "earnsMem s' = earnsMem s" "stellarSubmits s' = stellarSubmits s @ []"
    "solanaSubmits s' = solanaSubmits s @ new" "blockhashReqs s' = blockhashReqs s + n"
    by (simp_all add: s')
  have "n \<le> max 1 (maxSequenceRetries s)" using n by auto
  then show ?thesis unfolding callFrame_def using f q by auto
qed

lemma signAndSubmitXDR_callFrame:
  assumes "signAndSubmitXDR L signers envelope il s = ((result, err), s')"
    and "\<And>sq sigs. P \<lparr>ss_Envelope = envelope\<lparr>SeqNum := sq, Signatures := sigs\<rparr>,
                        ss_InvoiceList = il\<rparr>"
  shows "callFrame P Q 0 s s'"
proof (cases signers)
  case Nil
  then have "s' = s" using assms(1) by (simp add: signAndSubmitXDR_def)
  then show ?thesis by (simp add: callFrame_refl)
next
  case (Cons k ks)
  let ?s1 = "s\<lparr>accountInfoReqs := accountInfoReqs s @ [Public L k]\<rparr>"
  show ?thesis
  proof (cases "accountInfoResp s (length (accountInfoReqs s))")
    case (Inl e)
    have "s' = ?s1"
      using assms(1) signAndSubmitXDR_fetch_failed [OF Inl, of L k ks envelope il] Cons by simp
    then show ?thesis by (simp add: callFrame_def)
  next
    case (Inr info)
    obtain new n where
      post: "xdrLoopPost (maxSequenceRetries s) 1 (SequenceNumber info) il 1 envelope
                   ?s1 n err result s' new"
      using signAndSubmitXDR_loop [OF Inr assms(1) [unfolded Cons]] by blast
    have s': "s' = ?s1\<lparr>stellarSubmits := stellarSubmits ?s1 @ new\<rparr>"
      using post unfolding xdrLoopPost_def by blast
    have all: "\<forall>x\<in>set new.
               (\<exists>sq sigs. ss_Envelope x = envelope\<lparr>SeqNum := sq, Signatures := sigs\<rparr>)
               \<and> ss_InvoiceList x = il"
      using post unfolding xdrLoopPost_def by blast
    have "P x" if xin: "x \<in> set new" for x
    proof -
      obtain sq sigs where "ss_Envelope x = envelope\<lparr>SeqNum := sq, Signatures := sigs\<rparr>"
        "ss_InvoiceList x = il"
        using all xin by blast
      then have "x = \<lparr>ss_Envelope = envelope\<lparr>SeqNum := sq, Signatures := sigs\<rparr>,
                        ss_InvoiceList = il\<rparr>"
        by (cases x) simp
      then show ?thesis using assms(2) by simp
    qed
    then have p: "list_all P new" by (simp add: list_all_iff)
    have f: "appIndex s' = appIndex s" "maxSequenceRetries s' = maxSequenceRetries s"
      "kinVersion s' = kinVersion s" "internal_kinVersion s' = internal_kinVersion s"
      "earnsMem s' = earnsMem s" "stellarSubmits s' = stellarSubmits s @ new"
      "solanaSubmits s' = solanaSubmits s @ []" "blockhashReqs s' = blockhashReqs s"
      by (simp_all add: s')
    show ?thesis unfolding callFrame_def using f p by auto
  qed
qed

lemma callFrame_weaken:
  assumes "callFrame P Q m s s'" and "\<And>x. Q x \<Longrightarrow> Q' x"
  shows "callFrame P Q' m s s'"
proof -
  obtain new where n: "solanaSubmits s' = solanaSubmits s @ new" "list_all Q new"
    using assms(1) unfolding callFrame_def by blast
  have "list_all Q' new" using n(2) assms(2) by (simp add: list_all_iff)
  then have "\<exists>new. solanaSubmits s' = solanaSubmits s @ new \<and> list_all Q' new"
    using n(1) by blast
  then show ?thesis using assms(1) unfolding callFrame_def by blast
qed

lemma selectMemo_dest:
  "selectMemo L (payment\<lparr>p_Destination := d\<rparr>) idx = selectMemo L payment idx"
  by (simp add: selectMemo_def invoiceListHash_def cong: option.case_cong sum.case_cong)

lemma tokenMemoOk_dest:
  "tokenMemoOk L (payment\<lparr>p_Destination := d\<rparr>) idx x = tokenMemoOk L payment idx x"
  by (simp add: tokenMemoOk_def selectMemo_dest)

lemma hashMemo_selectMemo:
  assumes "p_Memo payment = []" "idx > 0"
  shows "selectMemo L payment idx =
           (case hashMemo L (p_Type payment) idx (paymentInvoiceList payment) of
              Inl e \<Rightarrow> None | Inr m \<Rightarrow> Some (StructuredMemo m))"
proof (cases "p_Invoice payment")
  case None
  then show ?thesis
    using assms
    by (simp add: selectMemo_def invoiceListHash_def hashMemo_def paymentInvoiceList_def
          split: sum.split)
next
  case (Some invoice)
  then show ?thesis
    using assms
    by (cases "Marshal L [Some invoice]")
      (simp_all add: selectMemo_def invoiceListHash_def hashMemo_def paymentInvoiceList_def
          split: sum.split)
qed

lemma submitSolanaPayment_callFrame:
  assumes "submitSolanaPayment L payment config cm ts sk s = ((result, err), s')"
  shows "callFrame P (\<lambda>x. tokenMemoOk L payment (appIndex s) x \<and> transferIs L payment ts x)
           (max 1 (maxSequenceRetries s)) s s'"
proof -
  let ?Q = "\<lambda>x. tokenMemoOk L payment (appIndex s) x \<and> transferIs L payment ts x"
  let ?signers = "(case sk of Some k \<Rightarrow> [k, p_Sender payment] | None \<Rightarrow> [p_Sender payment])"
  let ?payer = "(case sk of Some k \<Rightarrow> Public L k
             | None \<Rightarrow> (case SubsidizerAccount config of None \<Rightarrow> [] | Some v \<Rightarrow> v))"
  let ?transfer = "Transfer (case ts of None \<Rightarrow> Public L (p_Sender payment) | Some t \<Rightarrow> t)
                     (p_Destination payment) (Public L (p_Sender payment)) (p_Quarks payment)"
  have sub: "callFrame P ?Q (max 1 (maxSequenceRetries s)) s s'"
    if run: "signAndSubmitTx L ?signers
               \<lparr>tx_Payer = ?payer, tx_Instructions = memoInstructions L c @ [?transfer],
                tx_Blockhash = [], tx_Signatures = []\<rparr>
               cm il (p_DedupeID payment) s = ((result, err), s')"
      and sel: "selectMemo L payment (appIndex s) = Some c"
    for c il
  proof (rule signAndSubmitTx_callFrame [OF run])
    fix bh sigs
    show "?Q \<lparr>so_Transaction =
                 \<lparr>tx_Payer = ?payer, tx_Instructions = memoInstructions L c @ [?transfer],
                  tx_Blockhash = [], tx_Signatures = []\<rparr>
                 \<lparr>tx_Blockhash := bh, tx_Signatures := sigs\<rparr>,
               so_InvoiceList = il, so_Commitment = cm, so_DedupeID = p_DedupeID payment\<rparr>"
      using sel by (cases c) (simp_all add: tokenMemoOk_def transferIs_def)
  qed
  show ?thesis
  proof (cases "p_Memo payment \<noteq> []")
    case True
    have sel: "selectMemo L payment (appIndex s) = Some (TextMemo (p_Memo payment))"
      using True by (simp add: selectMemo_def)
    have run: "signAndSubmitTx L ?signers
               \<lparr>tx_Payer = ?payer,
                tx_Instructions = memoInstructions L (TextMemo (p_Memo payment)) @ [?transfer],
                tx_Blockhash = [], tx_Signatures = []\<rparr>
               cm None (p_DedupeID payment) s = ((result, err), s')"
      using assms True by (simp add: submitSolanaPayment_def Let_def)
    show ?thesis using sub [OF run sel] .
  next
    case False
    show ?thesis
    proof (cases "appIndex s > 0")
      case idx: True
      note hs = hashMemo_selectMemo [of payment "appIndex s" L] 
      show ?thesis
      proof (cases "hashMemo L (p_Type payment) (appIndex s) (paymentInvoiceList payment)")
        case (Inl e)
        then have "s' = s" using assms False idx by (simp add: submitSolanaPayment_def Let_def)
        then show ?thesis using callFrame_mono [OF callFrame_refl] by simp
      next
        case (Inr m)
        have sel: "selectMemo L payment (appIndex s) = Some (StructuredMemo m)"
          using hs False idx Inr by simp
        have run: "signAndSubmitTx L ?signers
               \<lparr>tx_Payer = ?payer,
                tx_Instructions = memoInstructions L (StructuredMemo m) @ [?transfer],
                tx_Blockhash = [], tx_Signatures = []\<rparr>
               cm (paymentInvoiceList payment) (p_DedupeID payment) s = ((result, err), s')"
          using assms False idx Inr by (simp add: submitSolanaPayment_def Let_def)
        show ?thesis using sub [OF run sel] .
      qed
    next
      case noidx: False
      have sel: "selectMemo L payment (appIndex s) = Some NoMemo"
        using False noidx by (simp add: selectMemo_def)
      have run: "signAndSubmitTx L ?signers
               \<lparr>tx_Payer = ?payer,
                tx_Instructions = memoInstructions L NoMemo @ [?transfer],
                tx_Blockhash = [], tx_Signatures = []\<rparr>
               cm None (p_DedupeID payment) s = ((result, err), s')"
        using assms False noidx by (simp add: submitSolanaPayment_def Let_def)
      show ?thesis using sub [OF run sel] .
    qed
  qed
qed



lemma submitPaymentWithResolution_resolved:
  assumes "GetServiceConfig s = (Inr config, s1)"
    and "SubsidizerAccount config \<noteq> None \<or> subsidizer sOpts \<noteq> None"
    and "submitSolanaPayment L payment config (commitment sOpts) None (subsidizer sOpts) s1
           = ((result1, None), s2)"
    and "TxError (Errors result1) = Some ErrAccountDoesNotExist"
    and "(if accountResolution sOpts = AccountResolutionPreferred
          then resolveFirst L (Public L (p_Sender payment)) s2 else (Inr None, s2))
           = (Inr ts, s3)"
    and "(if destResolution sOpts = AccountResolutionPreferred
          then resolveFirst L (p_Destination payment) s3 else (Inr None, s3))
           = (Inr d, s4)"
  shows "submitPaymentWithResolution L payment sOpts s =
           (if ts \<noteq> None \<or> d \<noteq> None
            then submitSolanaPayment L
                   (case d of None \<Rightarrow> payment | Some x \<Rightarrow> payment\<lparr>p_Destination := x\<rparr>)
                   config (commitment sOpts) ts (subsidizer sOpts) s4
            else ((result1, None), s4))"
proof -
  have ns: "\<not> (SubsidizerAccount config = None \<and> subsidizer sOpts = None)"
    using assms(2) by blast
  show ?thesis
    by (simp add: submitPaymentWithResolution_def assms(1,3,4,5,6) ns)
qed




lemmas eval_defs =
  resolvingState_def testState_def testLib_def testPayment_def testConfig_def absentResult_def
  defaultSubmitOpts_def GetServiceConfig_def submitSolanaPayment_def signAndSubmitTx_def
  txAction_def GetRecentBlockhash_def SubmitSolanaTransaction_def hashMemo_def
  paymentInvoiceList_def Retry.simps resolveTokenAccounts_def resolveFetch_def
  resolveAction_def internal_ResolveTokenAccounts_def lru_Get_def lru_Add_def lru_Remove_def
  time_Now_def cacheSize_def zeroResult_def noErrors_def Let_def






lemma resolveStep_first:
  assumes "(if c then resolveFirst L a s else (Inr None, s)) = (r, s')"
  shows "callFrame P Q 0 s s'" and "\<exists>x. r = Inr x"
proof -
  have "callFrame P Q 0 s s' \<and> (\<exists>x. r = Inr x)"
  proof (cases c)
    case True
    then have "resolveFirst L a s = (r, s')" using assms by simp
    then show ?thesis by (rule resolveFirst_callFrame)
  next
    case False
    then have "s' = s" "r = Inr None" using assms by simp_all
    then show ?thesis by (simp add: callFrame_refl)
  qed
  then show "callFrame P Q 0 s s'" and "\<exists>x. r = Inr x" by simp_all
qed

lemma submitPaymentWithResolution_callFrame:
  assumes "submitPaymentWithResolution L payment sOpts s = ((result, err), s')"
  shows "callFrame P (tokenMemoOk L payment (appIndex s))
           (2 * max 1 (maxSequenceRetries s)) s s'"
proof -
  let ?Q = "tokenMemoOk L payment (appIndex s)"
  let ?M = "max 1 (maxSequenceRetries s)"
  obtain rc s1 where c: "GetServiceConfig s = (rc, s1)" by (metis surj_pair)
  have f01: "callFrame P ?Q 0 s s1" using GetServiceConfig_callFrame [OF c] .
  have a1: "appIndex s1 = appIndex s" "maxSequenceRetries s1 = maxSequenceRetries s"
    using f01 unfolding callFrame_def by simp_all
  have done1: ?thesis if "s' = s1"
    using callFrame_mono [OF f01] that by simp
  show ?thesis
  proof (cases rc)
    case (Inl e)
    then have "s' = s1" using assms c by (simp add: submitPaymentWithResolution_def)
    then show ?thesis by (rule done1)
  next
    case (Inr config)
    show ?thesis
    proof (cases "SubsidizerAccount config = None \<and> subsidizer sOpts = None")
      case True
      then have "s' = s1" using assms c Inr by (simp add: submitPaymentWithResolution_def)
      then show ?thesis by (rule done1)
    next
      case False
      then have sub: "SubsidizerAccount config \<noteq> None \<or> subsidizer sOpts \<noteq> None" by auto
      obtain r1 e1 s2 where
        first: "submitSolanaPayment L payment config (commitment sOpts) None
                  (subsidizer sOpts) s1 = ((r1, e1), s2)"
        by (metis surj_pair)
      have f12: "callFrame P ?Q ?M s1 s2"
        using callFrame_weaken [OF submitSolanaPayment_callFrame [OF first, of P]] a1 by simp
      have f02: "callFrame P ?Q ?M s s2" using callFrame_trans [OF f01 f12] by simp
      have done2: ?thesis if "s' = s2"
        using callFrame_mono [OF f02] that by simp
      show ?thesis
      proof (cases "e1 = None \<and> TxError (Errors r1) = Some ErrAccountDoesNotExist")
        case False
        then have "s' = s2"
          using assms c Inr sub first
          by (cases e1) (auto simp add: submitPaymentWithResolution_def)
        then show ?thesis by (rule done2)
      next
        case True
        then have first': "submitSolanaPayment L payment config (commitment sOpts) None
                  (subsidizer sOpts) s1 = ((r1, None), s2)"
          and absent: "TxError (Errors r1) = Some ErrAccountDoesNotExist"
          using first by simp_all
        obtain rs s3 where
          st: "(if accountResolution sOpts = AccountResolutionPreferred
                then resolveFirst L (Public L (p_Sender payment)) s2 else (Inr None, s2))
               = (rs, s3)"
          by (metis surj_pair)
        obtain ts where ts: "rs = Inr ts" using resolveStep_first(2) [OF st] by blast
        obtain rd s4 where
          dt: "(if destResolution sOpts = AccountResolutionPreferred
                then resolveFirst L (p_Destination payment) s3 else (Inr None, s3))
               = (rd, s4)"
          by (metis surj_pair)
        obtain d where d: "rd = Inr d" using resolveStep_first(2) [OF dt] by blast
        have f24: "callFrame P ?Q 0 s2 s4"
          using callFrame_trans [OF resolveStep_first(1) [OF st] resolveStep_first(1) [OF dt]]
          by simp
        have f04: "callFrame P ?Q ?M s s4" using callFrame_trans [OF f02 f24] by simp
        have a4: "appIndex s4 = appIndex s" "maxSequenceRetries s4 = maxSequenceRetries s"
          using f04 unfolding callFrame_def by simp_all
        let ?p = "case d of None \<Rightarrow> payment | Some x \<Rightarrow> payment\<lparr>p_Destination := x\<rparr>"
        have R: "submitPaymentWithResolution L payment sOpts s =
           (if ts \<noteq> None \<or> d \<noteq> None
            then submitSolanaPayment L ?p config (commitment sOpts) ts (subsidizer sOpts) s4
            else ((r1, None), s4))"
          using submitPaymentWithResolution_resolved
            [OF c [unfolded Inr] sub first' absent st [unfolded ts] dt [unfolded d]] .
        show ?thesis
        proof (cases "ts \<noteq> None \<or> d \<noteq> None")
          case False
          then have "s' = s4" using R assms by simp
          then show ?thesis using callFrame_mono [OF f04] by simp
        next
          case True
          then have run: "submitSolanaPayment L ?p config (commitment sOpts) ts
                            (subsidizer sOpts) s4 = ((result, err), s')"
            using R assms by simp
          have q: "tokenMemoOk L ?p (appIndex s4) x = ?Q x" for x
            using a4 by (cases d) (simp_all add: tokenMemoOk_dest)
          have f4: "callFrame P ?Q ?M s4 s'"
            using callFrame_weaken [OF submitSolanaPayment_callFrame [OF run, of P]] q a4
            by simp
          have "callFrame P ?Q (?M + ?M) s s'" using callFrame_trans [OF f04 f4] .
          then show ?thesis by (simp add: mult_2)
        qed
      qed
    qed
  qed
qed

lemma logsFrame_refl: "logsFrame P Q s s"
  by (simp add: logsFrame_def)

lemma callFrame_logsFrame: "callFrame P Q m s s' \<Longrightarrow> logsFrame P Q s s'"
  unfolding callFrame_def logsFrame_def by blast

lemma logsFrame_upgrade:
  "logsFrame P Q s (s\<lparr>kinVersion := a, internal_kinVersion := b\<rparr>)"
  by (simp add: logsFrame_def)

lemma logsFrame_trans:
  assumes "logsFrame P Q s s1" "logsFrame P Q s1 s2"
  shows "logsFrame P Q s s2"
proof -
  obtain a1 where a1: "stellarSubmits s1 = stellarSubmits s @ a1" "list_all P a1"
    using assms(1) unfolding logsFrame_def by blast
  obtain a2 where a2: "stellarSubmits s2 = stellarSubmits s1 @ a2" "list_all P a2"
    using assms(2) unfolding logsFrame_def by blast
  obtain b1 where b1: "solanaSubmits s1 = solanaSubmits s @ b1" "list_all Q b1"
    using assms(1) unfolding logsFrame_def by blast
  obtain b2 where b2: "solanaSubmits s2 = solanaSubmits s1 @ b2" "list_all Q b2"
    using assms(2) unfolding logsFrame_def by blast
  have A: "stellarSubmits s2 = stellarSubmits s @ (a1 @ a2) \<and> list_all P (a1 @ a2)"
    using a1 a2 by simp
  have B: "solanaSubmits s2 = solanaSubmits s @ (b1 @ b2) \<and> list_all Q (b1 @ b2)"
    using b1 b2 by simp
  have C: "appIndex s2 = appIndex s" using assms unfolding logsFrame_def by simp
  show ?thesis unfolding logsFrame_def using A B C by blast
qed

lemma legacyMemoPart_select:
  assumes "legacyMemoPart L payment s = Inr (m, il)"
  shows "\<exists>c. selectMemo L payment (appIndex s) = Some c \<and> legacyMemo c = m"
proof (cases "p_Memo payment \<noteq> []")
  case True
  then show ?thesis using assms by (auto simp: legacyMemoPart_def selectMemo_def)
next
  case False
  show ?thesis
  proof (cases "appIndex s > 0")
    case idx: True
    note hs = hashMemo_selectMemo [of payment "appIndex s" L]
    show ?thesis
    proof (cases "hashMemo L (p_Type payment) (appIndex s) (paymentInvoiceList payment)")
      case (Inl e)
      then show ?thesis using assms False idx by (simp add: legacyMemoPart_def)
    next
      case (Inr mm)
      then have "m = MemoTypeHash mm" using assms False idx by (simp add: legacyMemoPart_def)
      moreover have "selectMemo L payment (appIndex s) = Some (StructuredMemo mm)"
        using hs False idx Inr by simp
      ultimately show ?thesis by simp
    qed
  next
    case noidx: False
    then show ?thesis using assms False by (auto simp: legacyMemoPart_def selectMemo_def)
  qed
qed

lemma SubmitPayment_valid:
  assumes "\<not> (kinVersion s > 4 \<or> kinVersion s < 2)"
    and "\<not> (p_Invoice payment \<noteq> None \<and> appIndex s = 0)"
  shows "SubmitPayment L payment opts s =
     (if kinVersion s = 4
      then
        (case submitPaymentWithResolution L payment (applyOpts (defaultSubmitOpts s) opts) s of
           ((result, err), s1) \<Rightarrow> (paymentOutcome L result err, s1))
      else
        (case legacyMemoPart L payment s of
           Inl e \<Rightarrow> (([], Some e), s)
         | Inr (m, invoiceList) \<Rightarrow>
             (case signAndSubmitXDR L (legacySigners (p_Channel payment) (p_Sender payment))
                     ((paymentEnvelope L payment s)\<lparr>env_Memo := m\<rparr>) invoiceList s of
                ((result, err), s1) \<Rightarrow>
                  if (case err of None \<Rightarrow> False
                      | Some e \<Rightarrow> status_Code e = FailedPrecondition)
                  then
                    (case submitPaymentWithResolution L payment
                            (applyOpts (defaultSubmitOpts s) opts)
                            (s1\<lparr>kinVersion := 4, internal_kinVersion := 4\<rparr>) of
                       ((result', err'), s2) \<Rightarrow> (paymentOutcome L result' err', s2))
                  else (paymentOutcome L result err, s1))))"
  by (simp only: SubmitPayment_def assms if_False)

lemma SubmitPayment_logsFrame:
  "logsFrame (legacyMemoOk L payment (appIndex s)) (tokenMemoOk L payment (appIndex s))
     s (snd (SubmitPayment L payment opts s))"
proof -
  let ?P = "legacyMemoOk L payment (appIndex s)"
  let ?Q = "tokenMemoOk L payment (appIndex s)"
  let ?o = "applyOpts (defaultSubmitOpts s) opts"
  let ?R = "SubmitPayment L payment opts s"
  show ?thesis
  proof (cases "kinVersion s > 4 \<or> kinVersion s < 2
                \<or> (p_Invoice payment \<noteq> None \<and> appIndex s = 0)")
    case True
    then have "snd ?R = s" by (auto simp: SubmitPayment_def)
    then show ?thesis by (simp add: logsFrame_refl)
  next
    case False
    then have v: "\<not> (kinVersion s > 4 \<or> kinVersion s < 2)"
      "\<not> (p_Invoice payment \<noteq> None \<and> appIndex s = 0)" by auto
    note valid = SubmitPayment_valid [OF v, of L opts]
    show ?thesis
    proof (cases "kinVersion s = 4")
      case True
      obtain r e s1 where w: "submitPaymentWithResolution L payment ?o s = ((r, e), s1)"
        by (metis surj_pair)
      have "snd ?R = s1" using True w by (simp add: valid)
      then show ?thesis
        using callFrame_logsFrame [OF submitPaymentWithResolution_callFrame [OF w, of ?P]]
        by simp
    next
      case legacy: False
      show ?thesis
      proof (cases "legacyMemoPart L payment s")
        case (Inl e)
        then have "snd ?R = s" using legacy by (simp add: valid)
        then show ?thesis by (simp add: logsFrame_refl)
      next
        case (Inr mi)
        obtain m il where mi: "mi = (m, il)" by (cases mi)
        obtain c where c: "selectMemo L payment (appIndex s) = Some c" "legacyMemo c = m"
          using legacyMemoPart_select [OF Inr [unfolded mi]] by blast
        obtain r e s1 where
          x: "signAndSubmitXDR L (legacySigners (p_Channel payment) (p_Sender payment))
                ((paymentEnvelope L payment s)\<lparr>env_Memo := m\<rparr>) il s = ((r, e), s1)"
          by (metis surj_pair)
        have f1: "callFrame ?P ?Q 0 s s1"
        proof (rule signAndSubmitXDR_callFrame [OF x])
          fix sq sigs
          show "?P \<lparr>ss_Envelope = (paymentEnvelope L payment s)\<lparr>env_Memo := m\<rparr>
                                     \<lparr>SeqNum := sq, Signatures := sigs\<rparr>,
                    ss_InvoiceList = il\<rparr>"
            using c by (simp add: legacyMemoOk_def)
        qed
        have l1: "logsFrame ?P ?Q s s1" using callFrame_logsFrame [OF f1] .
        have a1: "appIndex s1 = appIndex s" using l1 unfolding logsFrame_def by simp
        show ?thesis
        proof (cases "(case e of None \<Rightarrow> False
                      | Some e \<Rightarrow> status_Code e = FailedPrecondition)")
          case False
          then have "snd ?R = s1"
            using legacy Inr mi x by (simp add: valid)
          then show ?thesis using l1 by simp
        next
          case True
          let ?s1' = "s1\<lparr>kinVersion := 4, internal_kinVersion := 4\<rparr>"
          obtain r' e' s2 where
            w: "submitPaymentWithResolution L payment ?o ?s1' = ((r', e'), s2)"
            by (metis surj_pair)
          have "snd ?R = s2"
            using legacy Inr mi x True w by (simp add: valid)
          moreover have "logsFrame ?P ?Q ?s1' s2"
            using callFrame_logsFrame [OF submitPaymentWithResolution_callFrame [OF w, of ?P]]
              a1 by simp
          ultimately show ?thesis
            using logsFrame_trans [OF logsFrame_trans [OF l1 logsFrame_upgrade]] by simp
        qed
      qed
    qed
  qed
qed

text \<open>
  C6. Every transaction that \<open>SubmitPayment\<close> submits carries the memo of the policy:
  on the legacy ledger the memo field is the text memo, the structured memo or none; on
  the token ledger the instructions are the memo instruction of the text memo or of the
  base64 of the structured memo, or none, followed by one transfer.
\<close>

theorem payment_memo_policy:
  "list_all (legacyMemoOk L payment (appIndex s))
     (drop (length (stellarSubmits s)) (stellarSubmits (snd (SubmitPayment L payment opts s))))
   \<and> list_all (tokenMemoOk L payment (appIndex s))
     (drop (length (solanaSubmits s)) (solanaSubmits (snd (SubmitPayment L payment opts s))))"
proof -
  let ?s' = "snd (SubmitPayment L payment opts s)"
  note f = SubmitPayment_logsFrame [of L payment s opts]
  obtain a where a: "stellarSubmits ?s' = stellarSubmits s @ a"
    "list_all (legacyMemoOk L payment (appIndex s)) a"
    using f unfolding logsFrame_def by blast
  obtain b where b: "solanaSubmits ?s' = solanaSubmits s @ b"
    "list_all (tokenMemoOk L payment (appIndex s)) b"
    using f unfolding logsFrame_def by blast
  show ?thesis using a b by simp
qed

lemmas eval_earn_defs =
  SubmitEarnBatch_def validateEarnBatch_def submitEarnBatch_def submitSolanaEarnBatch_def
  submitEarnBatchWithResolution_def resolveFirst_def earnBatchResult_def legacySigners_def
  signAndSubmitXDR_def xdrAction_def SignEnvelope_def GetStellarAccountInfo_def
  SubmitStellarTransaction_def legacyAsset_def earnOperation_def applyOpts_def
  TransactionTypeEarn_def zeroEarnBatchResult_def testBatch_def testEarn_def
  paymentEnvelope_def SubmitPayment_def submitPaymentWithResolution_def paymentOutcome_def
  migratedState_def resolvingBatchState_def legacyMemoPart_def

text \<open>
  C1, at a failing input. On a Kin 3 client whose legacy submission is answered with
  FailedPrecondition, \<open>SubmitEarnBatch\<close> returns that error: the version stays 3 and
  nothing is submitted to the token ledger. \<open>SubmitPayment\<close> in the same state sets the
  version to 4 and submits the payment to the token ledger.
\<close>

theorem SubmitEarnBatch_ignores_migration:
  "fst (SubmitEarnBatch testLib testBatch [] migratedState)
     = (zeroEarnBatchResult, Some (StatusError FailedPrecondition ''unsupported version''))
   \<and> kinVersion (snd (SubmitEarnBatch testLib testBatch [] migratedState)) = 3
   \<and> length (stellarSubmits (snd (SubmitEarnBatch testLib testBatch [] migratedState))) = 1
   \<and> solanaSubmits (snd (SubmitEarnBatch testLib testBatch [] migratedState)) = []
   \<and> fst (SubmitPayment testLib testPayment [] migratedState) = ([], None)
   \<and> kinVersion (snd (SubmitPayment testLib testPayment [] migratedState)) = 4
   \<and> length (stellarSubmits (snd (SubmitPayment testLib testPayment [] migratedState))) = 1
   \<and> length (solanaSubmits (snd (SubmitPayment testLib testPayment [] migratedState))) = 1"
  by (simp add: eval_defs eval_earn_defs)

text \<open>
  C8, at a failing input. \<open>SubmitEarnBatch\<close> with a resolved destination writes the
  resolved account into the array of the caller's \<open>Earns\<close>: the earn to \<open>[2]\<close> is an
  earn to \<open>[7]\<close> after the call.
\<close>

theorem SubmitEarnBatch_mutates_callers_earns:
  "earnsMem resolvingBatchState (b_Earns testBatch)
     = [\<lparr>e_Destination = [2], e_Quarks = 10, e_Invoice = None\<rparr>]
   \<and> snd (fst (SubmitEarnBatch testLib testBatch [] resolvingBatchState)) = None
   \<and> earnsMem (snd (SubmitEarnBatch testLib testBatch [] resolvingBatchState)) (b_Earns testBatch)
     = [\<lparr>e_Destination = [7], e_Quarks = 10, e_Invoice = None\<rparr>]"
  by (simp add: eval_defs eval_earn_defs)

theorem payment_memo_policy_witness:
  "length (stellarSubmits (snd (SubmitPayment testLib testPayment [] testState))) = 1
   \<and> selectMemo testLib testPayment (appIndex testState) = Some (StructuredMemo (replicate 28 0))
   \<and> list_all (legacyMemoOk testLib testPayment (appIndex testState))
        (stellarSubmits (snd (SubmitPayment testLib testPayment [] testState)))"
proof -
  have n: "length (stellarSubmits (snd (SubmitPayment testLib testPayment [] testState))) = 1"
    by (simp add: eval_defs eval_earn_defs)
  have z: "stellarSubmits testState = []" by (simp add: testState_def)
  have m: "selectMemo testLib testPayment (appIndex testState)
             = Some (StructuredMemo (replicate 28 0))"
    by (simp add: selectMemo_def invoiceListHash_def testLib_def testPayment_def testState_def)
  show ?thesis
    using payment_memo_policy [of testLib testPayment testState "[]"] n z m by simp
qed

lemma callFrame_no_stellar:
  assumes "callFrame (\<lambda>x. False) Q m s s'"
  shows "stellarSubmits s' = stellarSubmits s"
proof -
  obtain new where n: "stellarSubmits s' = stellarSubmits s @ new" "list_all (\<lambda>x. False) new"
    using assms unfolding callFrame_def by blast
  have "new = []" using n(2) by (cases new) simp_all
  then show ?thesis using n(1) by simp
qed

text \<open>
  The part of C1 that holds: a legacy \<open>SubmitPayment\<close> whose submission fails with
  FailedPrecondition sets the version to 4 and continues with
  \<open>submitPaymentWithResolution\<close>, which keeps the version and submits nothing more to
  the legacy ledger.
\<close>

lemma SubmitPayment_upgrades:
  assumes "kinVersion s = 2 \<or> kinVersion s = 3"
    and "\<not> (p_Invoice payment \<noteq> None \<and> appIndex s = 0)"
    and "legacyMemoPart L payment s = Inr (m, il)"
    and "signAndSubmitXDR L (legacySigners (p_Channel payment) (p_Sender payment))
           ((paymentEnvelope L payment s)\<lparr>env_Memo := m\<rparr>) il s = ((r, Some e), s1)"
    and "status_Code e = FailedPrecondition"
  shows "SubmitPayment L payment opts s =
           (case submitPaymentWithResolution L payment (applyOpts (defaultSubmitOpts s) opts)
                   (s1\<lparr>kinVersion := 4, internal_kinVersion := 4\<rparr>) of
              ((r', e'), s2) \<Rightarrow> (paymentOutcome L r' e', s2))"
    and "kinVersion (snd (SubmitPayment L payment opts s)) = 4"
    and "stellarSubmits (snd (SubmitPayment L payment opts s)) = stellarSubmits s1"
proof -
  let ?s1' = "s1\<lparr>kinVersion := 4, internal_kinVersion := 4\<rparr>"
  let ?o = "applyOpts (defaultSubmitOpts s) opts"
  have v: "\<not> (kinVersion s > 4 \<or> kinVersion s < 2)" "kinVersion s \<noteq> 4"
    using assms(1) by auto
  show eq: "SubmitPayment L payment opts s =
           (case submitPaymentWithResolution L payment ?o ?s1' of
              ((r', e'), s2) \<Rightarrow> (paymentOutcome L r' e', s2))"
    using v(2) assms(3,4,5) by (simp add: SubmitPayment_valid [OF v(1) assms(2)])
  obtain r' e' s2 where w: "submitPaymentWithResolution L payment ?o ?s1' = ((r', e'), s2)"
    by (metis surj_pair)
  have s2: "snd (SubmitPayment L payment opts s) = s2" using eq w by simp
  note f = submitPaymentWithResolution_callFrame [OF w, of "\<lambda>x. False"]
  have "kinVersion s2 = kinVersion ?s1'" using f unfolding callFrame_def by blast
  then show "kinVersion (snd (SubmitPayment L payment opts s)) = 4" using s2 by simp
  have "stellarSubmits s2 = stellarSubmits ?s1'" using callFrame_no_stellar [OF f] .
  then show "stellarSubmits (snd (SubmitPayment L payment opts s)) = stellarSubmits s1"
    using s2 by simp
qed

text \<open>
  The earn-batch variant of the resolution: after a first submission that returns no error
  and the transaction error \<open>ErrAccountDoesNotExist\<close>, and the resolution of the sender
  and of the destinations, the batch is submitted once more if an account resolved, and
  the first result is returned otherwise.
\<close>

lemma submitEarnBatchWithResolution_resolved:
  assumes "submitSolanaEarnBatch L batch config (commitment sOpts) None (subsidizer sOpts) s
             = ((result1, None), s1)"
    and "TxError (Errors result1) = Some ErrAccountDoesNotExist"
    and "(if accountResolution sOpts = AccountResolutionPreferred
          then resolveFirst L (Public L (b_Sender batch)) s1 else (Inr None, s1))
           = (Inr ts, s2)"
    and "(if destResolution sOpts = AccountResolutionPreferred
          then resolveEarnDests L (b_Earns batch) 0 (earnsMem s2 (b_Earns batch))
                 (ts \<noteq> None) s2
          else ((None, ts \<noteq> None), s2)) = ((None, resubmit), s3)"
  shows "submitEarnBatchWithResolution L batch config sOpts s =
           (if resubmit
            then submitSolanaEarnBatch L batch config (commitment sOpts) ts (subsidizer sOpts) s3
            else ((result1, None), s3))"
  by (simp add: submitEarnBatchWithResolution_def assms)

end
